theory Spec2Isabelle
  imports Main "HOL-Library.Sublist"
begin

section \<open>Values of the Python program\<close>

text \<open>
  The program is \<^verbatim>\<open>src/local_search.py\<close>. A Python \<^verbatim>\<open>str\<close> is a \<open>string\<close>, one \<open>char\<close>
  standing for one character of the Python string. An exception is a value of type
  \<open>error\<close> carrying the text that \<^verbatim>\<open>str(e)\<close> gives; the two constructors are the two
  classes the program tells apart in its \<^verbatim>\<open>except\<close> clauses
  (\<^verbatim>\<open>requests.exceptions.RequestException\<close> and every other \<^verbatim>\<open>Exception\<close>).
\<close>

datatype error = RequestException string | OtherException string

text \<open>Decoded JSON; a number keeps its literal text.\<close>

datatype json =
    JNull
  | JBool bool
  | JNumber string
  | JString string
  | JArray "json list"
  | JObject "(string \<times> json) list"

text \<open>The part of a \<^verbatim>\<open>requests.Response\<close> the program reads.\<close>

record response =
  status_code :: nat
  reason :: string
  resp_url :: string
  resp_text :: string

text \<open>
  An entry of the parsed feed. \<^verbatim>\<open>feedparser\<close> entries are dictionaries read through
  attribute access, and reading an attribute whose key the entry does not hold raises
  \<^verbatim>\<open>AttributeError\<close>: \<open>None\<close> is the missing key.
\<close>

record entry =
  link :: "string option"
  title :: "string option"
  summary :: "string option"

text \<open>A search result is the dictionary built at line 104, kept in insertion order.\<close>

type_synonym result = "(string \<times> string) list"

definition dict_get :: "('k \<times> 'v) list \<Rightarrow> 'k \<Rightarrow> 'v \<Rightarrow> 'v" where
  "dict_get d k dflt = (case map_of d k of None \<Rightarrow> dflt | Some v \<Rightarrow> v)"

section \<open>The environment\<close>

text \<open>
  Everything outside the file is a parameter: the two configuration values read from
  the process environment, the HTTP library, the feed parser, the URL parser, the text
  extractor, the JSON decoder and the faults of the database driver. Each call that can
  raise returns \<open>error + 'a\<close>, \<open>Inl\<close> being the raised exception. Request headers and
  timeouts are not modelled: a timeout is one of the exceptions \<open>requests_get\<close> and
  \<open>requests_post\<close> may return.
\<close>

record world =
  SEARXNG_URL :: string
  OLLAMA_MODEL :: string
  requests_get :: "string \<Rightarrow> (string \<times> string) list \<Rightarrow> error + response"
  requests_post :: "string \<Rightarrow> json \<Rightarrow> error + response"
  resp_json :: "string \<Rightarrow> error + json"
  feedparser_parse :: "string \<Rightarrow> error + entry list"
  urlparse_scheme :: "string \<Rightarrow> error + string"
  trafilatura_extract :: "string \<Rightarrow> error + string option"
  db_read_fault :: "string \<Rightarrow> error option"
  db_write_fault :: "string \<Rightarrow> string \<Rightarrow> error option"

definition OLLAMA_API :: string where
  "OLLAMA_API = ''http://localhost:11434/api/generate''"

definition MAX_RESULTS :: nat where
  "MAX_RESULTS = 3"

text \<open>
  The mutable part: the table \<^verbatim>\<open>web_cache\<close> (url to content), and the log of the calls
  that leave the process, in the order they are made.
\<close>

datatype event =
    Search string
  | CacheGet string
  | CachePut string string
  | Fetch string
  | Generate string

record state =
  web_cache :: "string \<rightharpoonup> string"
  trace :: "event list"

definition log_event :: "event \<Rightarrow> state \<Rightarrow> state" where
  "log_event ev st = st\<lparr>trace := trace st @ [ev]\<rparr>"

section \<open>Library behaviour the program relies on\<close>

fun digit_char :: "nat \<Rightarrow> char" where
  "digit_char n = char_of (48 + n)"

fun str_nat :: "nat \<Rightarrow> string" where
  "str_nat n = (if n < 10 then [digit_char n] else str_nat (n div 10) @ [digit_char (n mod 10)])"

declare str_nat.simps [simp del]

text \<open>
  \<^verbatim>\<open>Response.raise_for_status\<close>: a status from 400 to 599 raises \<^verbatim>\<open>HTTPError\<close>, which is a
  \<^verbatim>\<open>RequestException\<close>; any other status returns.
\<close>

definition raise_for_status :: "response \<Rightarrow> error + unit" where
  "raise_for_status r =
     (if 400 \<le> status_code r \<and> status_code r < 500 then
        Inl (RequestException (str_nat (status_code r) @ '' Client Error: '' @ reason r
                               @ '' for url: '' @ resp_url r))
      else if 500 \<le> status_code r \<and> status_code r < 600 then
        Inl (RequestException (str_nat (status_code r) @ '' Server Error: '' @ reason r
                               @ '' for url: '' @ resp_url r))
      else Inr ())"

text \<open>\<^verbatim>\<open>str.strip()\<close>: the whitespace characters below code point 256.\<close>

definition isspace :: "char \<Rightarrow> bool" where
  "isspace c = (of_char c \<in> {9, 10, 11, 12, 13, 28, 29, 30, 31, 32, 133, 160 :: nat})"

definition strip :: "string \<Rightarrow> string" where
  "strip s = rev (dropWhile isspace (rev (dropWhile isspace s)))"

text \<open>\<^verbatim>\<open>sep.join(xs)\<close>.\<close>

fun join :: "string \<Rightarrow> string list \<Rightarrow> string" where
  "join sep [] = []"
| "join sep [x] = x"
| "join sep (x # y # ys) = x @ sep @ join sep (y # ys)"

section \<open>The cache store (lines 43 to 58)\<close>

text \<open>
  Neither function has a \<^verbatim>\<open>try\<close>: an exception of the driver (connecting, executing,
  committing) leaves the function as it is.
\<close>

definition get_cached_content :: "world \<Rightarrow> string \<Rightarrow> state \<Rightarrow> (error + string option) \<times> state" where
  "get_cached_content w url st =
     (let st1 = log_event (CacheGet url) st in
      case db_read_fault w url of
        Some e \<Rightarrow> (Inl e, st1)
      | None \<Rightarrow> (Inr (web_cache st1 url), st1))"

definition save_to_cache :: "world \<Rightarrow> string \<Rightarrow> string \<Rightarrow> state \<Rightarrow> (error + unit) \<times> state" where
  "save_to_cache w url content st =
     (let st1 = log_event (CachePut url content) st in
      case db_write_fault w url content of
        Some e \<Rightarrow> (Inl e, st1)
      | None \<Rightarrow> (Inr (), st1\<lparr>web_cache := (web_cache st1)(url \<mapsto> content)\<rparr>))"

section \<open>The web fetcher (lines 61 to 76)\<close>

text \<open>What the body of the \<^verbatim>\<open>try\<close> computes; the \<^verbatim>\<open>except\<close> clause turns \<open>Inl\<close> into the empty string.\<close>

definition fetch_body :: "world \<Rightarrow> string \<Rightarrow> error + string" where
  "fetch_body w url =
     (case requests_get w url [] of
        Inl e \<Rightarrow> Inl e
      | Inr resp \<Rightarrow>
          (case raise_for_status resp of
             Inl e \<Rightarrow> Inl e
           | Inr _ \<Rightarrow>
               (case trafilatura_extract w (resp_text resp) of
                  Inl e \<Rightarrow> Inl e
                | Inr None \<Rightarrow> Inr []
                | Inr (Some t) \<Rightarrow> Inr t)))"

definition fetch_clean_text :: "world \<Rightarrow> string \<Rightarrow> state \<Rightarrow> string \<times> state" where
  "fetch_clean_text w url st =
     (let st1 = log_event (Fetch url) st in
      case fetch_body w url of
        Inl e \<Rightarrow> ([], st1)
      | Inr t \<Rightarrow> (t, st1))"

section \<open>The generation client (lines 79 to 95)\<close>

definition llm_payload :: "world \<Rightarrow> string \<Rightarrow> json" where
  "llm_payload w prompt =
     JObject [(''model'', JString (OLLAMA_MODEL w)),
              (''prompt'', JString prompt),
              (''stream'', JBool False),
              (''options'', JObject [(''temperature'', JNumber ''0.3''),
                                     (''num_ctx'', JNumber ''4096'')])]"

text \<open>
  \<^verbatim>\<open>resp.json().get("response", "").strip()\<close>: \<^verbatim>\<open>get\<close> exists on a dictionary only and
  \<^verbatim>\<open>strip\<close> on a string only, anything else raises \<^verbatim>\<open>AttributeError\<close>. A decoded object
  keeps the last of two equal keys.
\<close>

definition response_field :: "json \<Rightarrow> error + string" where
  "response_field j =
     (case j of
        JObject kvs \<Rightarrow>
          (case map_of (rev kvs) ''response'' of
             None \<Rightarrow> Inr (strip [])
           | Some (JString s) \<Rightarrow> Inr (strip s)
           | Some _ \<Rightarrow> Inl (OtherException ''object has no attribute 'strip' ''))
      | _ \<Rightarrow> Inl (OtherException ''object has no attribute 'get' ''))"

definition llm_body :: "world \<Rightarrow> string \<Rightarrow> error + string" where
  "llm_body w prompt =
     (case requests_post w OLLAMA_API (llm_payload w prompt) of
        Inl e \<Rightarrow> Inl e
      | Inr resp \<Rightarrow>
          (case raise_for_status resp of
             Inl e \<Rightarrow> Inl e
           | Inr _ \<Rightarrow>
               (case resp_json w (resp_text resp) of
                  Inl e \<Rightarrow> Inl e
                | Inr j \<Rightarrow> response_field j)))"

definition query_local_llm :: "world \<Rightarrow> string \<Rightarrow> state \<Rightarrow> string \<times> state" where
  "query_local_llm w prompt st =
     (let st1 = log_event (Generate prompt) st in
      case llm_body w prompt of
        Inl e \<Rightarrow> (''Error generating answer.'', st1)
      | Inr answer \<Rightarrow> (answer, st1))"

section \<open>The feed parser (lines 97 to 108)\<close>

definition attribute_error :: "string \<Rightarrow> error" where
  "attribute_error name = OtherException (''object has no attribute '' @ name)"

text \<open>The \<^verbatim>\<open>for\<close> loop of lines 102 to 104, \<open>results\<close> being the list built so far.\<close>

fun collect_entries :: "entry list \<Rightarrow> result list \<Rightarrow> error + result list" where
  "collect_entries [] results = Inr results"
| "collect_entries (e # es) results =
     (case link e of
        None \<Rightarrow> Inl (attribute_error ''link'')
      | Some l \<Rightarrow>
          if l \<noteq> [] then
            (case title e of
               None \<Rightarrow> Inl (attribute_error ''title'')
             | Some t \<Rightarrow>
                 (case summary e of
                    None \<Rightarrow> Inl (attribute_error ''summary'')
                  | Some s \<Rightarrow>
                      collect_entries es
                        (results @ [[(''title'', t), (''url'', l), (''content'', s)]])))
          else collect_entries es results)"

definition parse_rss_results :: "world \<Rightarrow> string \<Rightarrow> result list" where
  "parse_rss_results w rss_text =
     (case feedparser_parse w rss_text of
        Inl e \<Rightarrow> []
      | Inr entries \<Rightarrow>
          (case collect_entries entries [] of
             Inl e \<Rightarrow> []
           | Inr results \<Rightarrow> results))"

section \<open>The main search function (lines 112 to 181)\<close>

definition search_params :: "string \<Rightarrow> (string \<times> string) list" where
  "search_params query =
     [(''q'', query), (''format'', ''rss''), (''language'', ''en''), (''pageno'', ''1'')]"

text \<open>Lines 125 to 134: the request and its two \<^verbatim>\<open>except\<close> clauses, \<open>Inl\<close> being the returned message.\<close>

definition search_failed :: "error \<Rightarrow> string" where
  "search_failed e =
     (case e of
        RequestException m \<Rightarrow> ''[!] Search request failed: '' @ m
      | OtherException m \<Rightarrow> ''[!] Search failed: '' @ m)"

definition search_request :: "world \<Rightarrow> string \<Rightarrow> string + result list" where
  "search_request w query =
     (case requests_get w (SEARXNG_URL w) (search_params query) of
        Inl e \<Rightarrow> Inl (search_failed e)
      | Inr resp \<Rightarrow>
          (case raise_for_status resp of
             Inl e \<Rightarrow> Inl (search_failed e)
           | Inr _ \<Rightarrow> Inr (parse_rss_results w (resp_text resp))))"

text \<open>Line 161: the block of one result, its content cut at 2000 characters.\<close>

definition format_block :: "string \<Rightarrow> string \<Rightarrow> string \<Rightarrow> string" where
  "format_block ttl url content =
     ''Title: '' @ ttl @ [CHR 0x0A] @ ''URL: '' @ url @ [CHR 0x0A] @ ''Content: '' @ take 2000 content"

text \<open>
  Lines 152 to 159: the content of one retained result. The cache is read first; a
  missing, null or empty entry leads to the live fetch, whose non-empty text is saved,
  and whose empty text gives way to the snippet or to the placeholder.
\<close>

definition obtain_content :: "world \<Rightarrow> string \<Rightarrow> string \<Rightarrow> state \<Rightarrow> (error + string) \<times> state" where
  "obtain_content w url snippet st =
     (case get_cached_content w url st of
        (Inl e, st1) \<Rightarrow> (Inl e, st1)
      | (Inr cached, st1) \<Rightarrow>
          if cached = None \<or> cached = Some [] then
            (case fetch_clean_text w url st1 of
               (content, st2) \<Rightarrow>
                 if content \<noteq> [] then
                   (case save_to_cache w url content st2 of
                      (Inl e, st3) \<Rightarrow> (Inl e, st3)
                    | (Inr _, st3) \<Rightarrow> (Inr content, st3))
                 else
                   (Inr (if snippet \<noteq> [] then snippet else ''No content available.''), st2))
          else (Inr (the cached), st1))"

text \<open>
  Line 148: \<open>Inr True\<close> when the result is kept, \<open>Inr False\<close> when it is skipped by
  \<^verbatim>\<open>continue\<close>; the URL parser is not called on an empty URL.
\<close>

definition url_retained :: "world \<Rightarrow> string \<Rightarrow> error + bool" where
  "url_retained w url =
     (if url = [] then Inr False
      else
        (case urlparse_scheme w url of
           Inl e \<Rightarrow> Inl e
         | Inr scheme \<Rightarrow> Inr (scheme \<in> {''http'', ''https''})))"

text \<open>Lines 144 to 161: one iteration of the loop over the top results.\<close>

definition loop_body :: "world \<Rightarrow> result \<Rightarrow> string list \<Rightarrow> state \<Rightarrow> (error + string list) \<times> state" where
  "loop_body w res contents st =
     (let url = dict_get res ''url'' [];
          ttl = dict_get res ''title'' ''No title'';
          snippet = dict_get res ''content'' []
      in case url_retained w url of
           Inl e \<Rightarrow> (Inl e, st)
         | Inr False \<Rightarrow> (Inr contents, st)
         | Inr True \<Rightarrow>
             (case obtain_content w url snippet st of
                (Inl e, st1) \<Rightarrow> (Inl e, st1)
              | (Inr content, st1) \<Rightarrow> (Inr (contents @ [format_block ttl url content]), st1)))"

fun for_loop :: "world \<Rightarrow> result list \<Rightarrow> string list \<Rightarrow> state \<Rightarrow> (error + string list) \<times> state" where
  "for_loop w [] contents st = (Inr contents, st)"
| "for_loop w (res # rest) contents st =
     (case loop_body w res contents st of
        (Inl e, st1) \<Rightarrow> (Inl e, st1)
      | (Inr contents1, st1) \<Rightarrow> for_loop w rest contents1 st1)"

definition build_prompt :: "string list \<Rightarrow> string \<Rightarrow> string" where
  "build_prompt contents query =
     ''Based on the following web search results, please answer the question.'' @ [CHR 0x0A]
     @ ''Provide a concise answer (2-4 sentences) and cite the facts using the provided URLs.'' @ [CHR 0x0A]
     @ ''If the information is not present in the results, state that you could not find a relevant answer.''
     @ [CHR 0x0A, CHR 0x0A]
     @ ''Web Results:'' @ [CHR 0x0A]
     @ join ([CHR 0x0A, CHR 0x0A] @ ''---'' @ [CHR 0x0A, CHR 0x0A]) contents
     @ [CHR 0x0A, CHR 0x0A] @ ''---'' @ [CHR 0x0A]
     @ ''Question: '' @ query @ [CHR 0x0A, CHR 0x0A]
     @ ''Answer:''"

text \<open>Lines 136 to 181, once the search has returned \<open>results\<close>.\<close>

definition process_results :: "world \<Rightarrow> string \<Rightarrow> result list \<Rightarrow> state \<Rightarrow> (error + string) \<times> state" where
  "process_results w query results st =
     (if results = [] then (Inr ''No search results found.'', st)
      else
        (case for_loop w (take MAX_RESULTS results) [] st of
           (Inl e, st1) \<Rightarrow> (Inl e, st1)
         | (Inr contents, st1) \<Rightarrow>
             if contents = [] then (Inr ''No usable content retrieved.'', st1)
             else
               (case query_local_llm w (build_prompt contents query) st1 of
                  (answer, st2) \<Rightarrow> (Inr answer, st2))))"

text \<open>
  The whole function: \<open>Inr\<close> is the returned string, \<open>Inl\<close> an exception that leaves
  \<^verbatim>\<open>tavily_like_search\<close>; the state is the one reached in either case.
\<close>

definition tavily_like_search :: "world \<Rightarrow> string \<Rightarrow> state \<Rightarrow> (error + string) \<times> state" where
  "tavily_like_search w query st =
     (let st0 = log_event (Search query) st in
      case search_request w query of
        Inl msg \<Rightarrow> (Inr msg, st0)
      | Inr results \<Rightarrow> process_results w query results st0)"

section \<open>Notions used to state the properties\<close>

definition url_of :: "result \<Rightarrow> string" where
  "url_of res = dict_get res ''url'' []"

definition title_of :: "result \<Rightarrow> string" where
  "title_of res = dict_get res ''title'' ''No title''"

definition snippet_of :: "result \<Rightarrow> string" where
  "snippet_of res = dict_get res ''content'' []"

text \<open>A result is kept when line 148 does not \<^verbatim>\<open>continue\<close> (and does not raise).\<close>

definition kept :: "world \<Rightarrow> result \<Rightarrow> bool" where
  "kept w res = (url_retained w (url_of res) = Inr True)"

text \<open>The string \<open>fetch_clean_text\<close> returns, which does not depend on the state.\<close>

definition fetched_text :: "world \<Rightarrow> string \<Rightarrow> string" where
  "fetched_text w url = (case fetch_body w url of Inl e \<Rightarrow> [] | Inr t \<Rightarrow> t)"

text \<open>The content line 159 falls back to.\<close>

definition fallback :: "string \<Rightarrow> string" where
  "fallback snippet = (if snippet \<noteq> [] then snippet else ''No content available.'')"

text \<open>Projections of a log: the URLs looked up, the URLs fetched, the prompts generated from.\<close>

fun lookup_of :: "event \<Rightarrow> string list" where
  "lookup_of (CacheGet u) = [u]"
| "lookup_of _ = []"

fun fetch_of :: "event \<Rightarrow> string list" where
  "fetch_of (Fetch u) = [u]"
| "fetch_of _ = []"

fun put_of :: "event \<Rightarrow> (string \<times> string) list" where
  "put_of (CachePut u c) = [(u, c)]"
| "put_of _ = []"

fun prompt_of :: "event \<Rightarrow> string list" where
  "prompt_of (Generate p) = [p]"
| "prompt_of _ = []"

definition lookups :: "event list \<Rightarrow> string list" where
  "lookups evs = concat (map lookup_of evs)"

definition fetches :: "event list \<Rightarrow> string list" where
  "fetches evs = concat (map fetch_of evs)"

definition puts :: "event list \<Rightarrow> (string \<times> string) list" where
  "puts evs = concat (map put_of evs)"

definition prompts :: "event list \<Rightarrow> string list" where
  "prompts evs = concat (map prompt_of evs)"

text \<open>
  What a block of the prompt is made of: the title and the URL of its result, and a
  non-empty content that is the entry of the cache \<open>m\<close>, the text fetched live, or the
  fallback of line 159.
\<close>

definition block_from :: "world \<Rightarrow> (string \<rightharpoonup> string) \<Rightarrow> result \<Rightarrow> string \<Rightarrow> bool" where
  "block_from w m res b =
     (\<exists>c. c \<noteq> []
        \<and> (m (url_of res) = Some c \<or> c = fetched_text w (url_of res) \<or> c = fallback (snippet_of res))
        \<and> b = ''Title: '' @ title_of res @ [CHR 0x0A] @ ''URL: '' @ url_of res @ [CHR 0x0A]
              @ ''Content: '' @ take 2000 c
        \<and> length (take 2000 c) = min (length c) 2000)"

text \<open>The text \<open>c\<close> is what the extractor returned for the page fetched from \<open>u\<close>.\<close>

definition extracted :: "world \<Rightarrow> string \<Rightarrow> string \<Rightarrow> bool" where
  "extracted w u c =
     (\<exists>resp. requests_get w u [] = Inr resp \<and> raise_for_status resp = Inr ()
        \<and> trafilatura_extract w (resp_text resp) = Inr (Some c))"

text \<open>The string \<open>query_local_llm\<close> returns, which does not depend on the state.\<close>

definition llm_answer :: "world \<Rightarrow> string \<Rightarrow> string" where
  "llm_answer w prompt =
     (case llm_body w prompt of Inl e \<Rightarrow> ''Error generating answer.'' | Inr answer \<Rightarrow> answer)"

text \<open>The block of a result whose content is the placeholder.\<close>

definition placeholder_block :: "result \<Rightarrow> string" where
  "placeholder_block res =
     ''Title: '' @ title_of res @ [CHR 0x0A] @ ''URL: '' @ url_of res @ [CHR 0x0A]
     @ ''Content: No content available.''"

text \<open>
  From \<open>st\<close> to \<open>st'\<close> the log has grown by \<open>new\<close>, every value put is a non-empty
  text of the extractor, and the table has changed only where a value was put.
\<close>

definition sound_writes :: "world \<Rightarrow> state \<Rightarrow> state \<Rightarrow> event list \<Rightarrow> bool" where
  "sound_writes w st st' new =
     (trace st' = trace st @ new
      \<and> (\<forall>u c. (u, c) \<in> set (puts new) \<longrightarrow> c \<noteq> [] \<and> extracted w u c)
      \<and> (\<forall>u. web_cache st' u = web_cache st u
              \<or> (\<exists>c. web_cache st' u = Some c \<and> (u, c) \<in> set (puts new))))"

section \<open>Concrete environments\<close>

text \<open>
  A search for the capital of France. The feed has five entries; the third has an empty
  link, so four results come back. Among the first three results, the second is an FTP
  link and the third is a page that cannot be reached and has no summary.
\<close>

definition ok_response :: "string \<Rightarrow> response" where
  "ok_response body = \<lparr>status_code = 200, reason = ''OK'', resp_url = [], resp_text = body\<rparr>"

definition demo_query :: string where
  "demo_query = ''capital of France''"

definition demo_entries :: "entry list" where
  "demo_entries =
     [\<lparr>link = Some ''https://example.org/france'', title = Some ''France'',
       summary = Some ''France info''\<rparr>,
      \<lparr>link = Some ''ftp://example.org/file'', title = Some ''File'',
       summary = Some ''An archive''\<rparr>,
      \<lparr>link = Some [], title = Some ''Nothing'', summary = Some []\<rparr>,
      \<lparr>link = Some ''http://example.org/down'', title = Some ''Down'', summary = Some []\<rparr>,
      \<lparr>link = Some ''https://example.org/paris'', title = Some ''Paris'',
       summary = Some ''Paris info''\<rparr>]"

definition demo_world :: world where
  "demo_world =
     \<lparr>SEARXNG_URL = ''http://localhost:8888/search'',
      OLLAMA_MODEL = ''llama3.2:1b'',
      requests_get = (\<lambda>url params.
         if url = ''http://localhost:8888/search'' then Inr (ok_response ''feed'')
         else if url = ''https://example.org/france'' then Inr (ok_response ''page'')
         else Inl (RequestException ''Connection refused'')),
      requests_post = (\<lambda>url payload. Inr (ok_response ''answer'')),
      resp_json = (\<lambda>body.
         Inr (JObject [(''response'', JString ''Paris is the capital of France (example.org).'')])),
      feedparser_parse = (\<lambda>body. Inr demo_entries),
      urlparse_scheme = (\<lambda>url. Inr (takeWhile (\<lambda>c. c \<noteq> CHR '':'') url)),
      trafilatura_extract = (\<lambda>html. Inr (Some ''Paris is the capital of France.'')),
      db_read_fault = (\<lambda>url. None),
      db_write_fault = (\<lambda>url content. None)\<rparr>"

definition demo_results :: "result list" where
  "demo_results =
     [[(''title'', ''France''), (''url'', ''https://example.org/france''), (''content'', ''France info'')],
      [(''title'', ''File''), (''url'', ''ftp://example.org/file''), (''content'', ''An archive'')],
      [(''title'', ''Down''), (''url'', ''http://example.org/down''), (''content'', [])],
      [(''title'', ''Paris''), (''url'', ''https://example.org/paris''), (''content'', ''Paris info'')]]"

definition demo_blocks :: "string list" where
  "demo_blocks =
     [''Title: France'' @ [CHR 0x0A] @ ''URL: https://example.org/france'' @ [CHR 0x0A]
        @ ''Content: Paris is the capital of France.'',
      ''Title: Down'' @ [CHR 0x0A] @ ''URL: http://example.org/down'' @ [CHR 0x0A]
        @ ''Content: No content available.'']"

definition empty_state :: state where
  "empty_state = \<lparr>web_cache = Map.empty, trace = []\<rparr>"

text \<open>The first and the third result, and what the first page holds.\<close>

definition france_url :: string where
  "france_url = ''https://example.org/france''"

definition france_text :: string where
  "france_text = ''Paris is the capital of France.''"

definition france_result :: result where
  "france_result =
     [(''title'', ''France''), (''url'', ''https://example.org/france''), (''content'', ''France info'')]"

definition down_url :: string where
  "down_url = ''http://example.org/down''"

definition down_result :: result where
  "down_result = [(''title'', ''Down''), (''url'', ''http://example.org/down''), (''content'', [])]"

text \<open>The state after the page of \<open>france_url\<close> has been fetched and stored.\<close>

definition france_cached :: state where
  "france_cached =
     \<lparr>web_cache = [france_url \<mapsto> france_text],
      trace = [CacheGet france_url, Fetch france_url, CachePut france_url france_text]\<rparr>"

text \<open>The search backend refuses the connection, answers 503, sends a feed without entries,
  or sends a feed whose second entry has no link at all.\<close>

definition refused_world :: world where
  "refused_world =
     demo_world\<lparr>requests_get := (\<lambda>url params. Inl (RequestException ''Connection refused''))\<rparr>"

definition unavailable_world :: world where
  "unavailable_world =
     demo_world\<lparr>requests_get := (\<lambda>url params.
        Inr \<lparr>status_code = 503, reason = ''Service Unavailable'', resp_url = url, resp_text = []\<rparr>)\<rparr>"

definition no_entries_world :: world where
  "no_entries_world = demo_world\<lparr>feedparser_parse := (\<lambda>body. Inr [])\<rparr>"

definition linkless_world :: world where
  "linkless_world =
     demo_world\<lparr>feedparser_parse := (\<lambda>body.
        Inr [\<lparr>link = Some ''https://example.org/france'', title = Some ''France'',
              summary = Some ''France info''\<rparr>,
             \<lparr>link = None, title = Some ''No link'', summary = Some ''Some text''\<rparr>])\<rparr>"

text \<open>The feed holds an FTP link and an entry with an empty link: no result is kept.\<close>

definition ftp_world :: world where
  "ftp_world = demo_world\<lparr>feedparser_parse := (\<lambda>body. Inr (take 2 (tl demo_entries)))\<rparr>"

definition ftp_results :: "result list" where
  "ftp_results = [[(''title'', ''File''), (''url'', ''ftp://example.org/file''), (''content'', ''An archive'')]]"

text \<open>The feed holds one entry: a page that cannot be reached, without a summary.\<close>

definition placeholder_world :: world where
  "placeholder_world =
     demo_world\<lparr>feedparser_parse := (\<lambda>body.
        Inr [\<lparr>link = Some ''http://example.org/down'', title = Some ''Down'', summary = Some []\<rparr>])\<rparr>"

text \<open>The extractor returns 2500 characters.\<close>

definition long_world :: world where
  "long_world = demo_world\<lparr>trafilatura_extract := (\<lambda>html. Inr (Some (replicate 2500 (CHR ''a''))))\<rparr>"

definition long_blocks :: "string list" where
  "long_blocks =
     [''Title: France'' @ [CHR 0x0A] @ ''URL: https://example.org/france'' @ [CHR 0x0A]
        @ ''Content: '' @ replicate 2000 (CHR ''a''),
      ''Title: Down'' @ [CHR 0x0A] @ ''URL: http://example.org/down'' @ [CHR 0x0A]
        @ ''Content: No content available.'']"

text \<open>The database cannot be reached; the database accepts reads and refuses writes.\<close>

definition db_down_world :: world where
  "db_down_world =
     demo_world\<lparr>db_read_fault := (\<lambda>url. Some (OtherException ''could not connect to server'')),
                db_write_fault := (\<lambda>url content. Some (OtherException ''could not connect to server''))\<rparr>"

definition read_only_world :: world where
  "read_only_world =
     demo_world\<lparr>db_write_fault := (\<lambda>url content. Some (OtherException ''read-only transaction''))\<rparr>"

text \<open>
  Generation backends: one answers with a JSON object that has no \<^verbatim>\<open>response\<close> field, one
  refuses the connection, one answers 500, one sends a body that is not JSON, one sends
  a JSON array, one sends an object whose \<^verbatim>\<open>response\<close> is null.
\<close>

definition no_field_world :: world where
  "no_field_world =
     demo_world\<lparr>resp_json := (\<lambda>body.
        Inr (JObject [(''model'', JString ''llama3.2:1b''), (''done'', JBool True)]))\<rparr>"

definition llm_refused_world :: world where
  "llm_refused_world =
     demo_world\<lparr>requests_post := (\<lambda>url payload. Inl (RequestException ''Connection refused''))\<rparr>"

definition llm_error_world :: world where
  "llm_error_world =
     demo_world\<lparr>requests_post := (\<lambda>url payload.
        Inr \<lparr>status_code = 500, reason = ''Internal Server Error'', resp_url = url,
             resp_text = []\<rparr>)\<rparr>"

definition bad_json_world :: world where
  "bad_json_world =
     demo_world\<lparr>resp_json := (\<lambda>body. Inl (RequestException ''Expecting value''))\<rparr>"

definition array_json_world :: world where
  "array_json_world = demo_world\<lparr>resp_json := (\<lambda>body. Inr (JArray []))\<rparr>"

definition null_field_world :: world where
  "null_field_world = demo_world\<lparr>resp_json := (\<lambda>body. Inr (JObject [(''response'', JNull)]))\<rparr>"

section \<open>Auxiliary facts\<close>

lemma trace_log_event [simp]: "trace (log_event ev st) = trace st @ [ev]"
  by (simp add: log_event_def)

lemma web_cache_log_event [simp]: "web_cache (log_event ev st) = web_cache st"
  by (simp add: log_event_def)

lemma lookups_append [simp]: "lookups (a @ b) = lookups a @ lookups b"
  by (simp add: lookups_def)
lemma fetches_append [simp]: "fetches (a @ b) = fetches a @ fetches b"
  by (simp add: fetches_def)
lemma puts_append [simp]: "puts (a @ b) = puts a @ puts b"
  by (simp add: puts_def)
lemma prompts_append [simp]: "prompts (a @ b) = prompts a @ prompts b"
  by (simp add: prompts_def)

lemma fetch_clean_text_eq:
  "fetch_clean_text w url st = (fetched_text w url, log_event (Fetch url) st)"
  by (simp add: fetch_clean_text_def fetched_text_def split: sum.splits)

lemma obtain_read_fault:
  "db_read_fault w url = Some e \<Longrightarrow>
     obtain_content w url snippet st = (Inl e, log_event (CacheGet url) st)"
  by (simp add: obtain_content_def get_cached_content_def)

lemma obtain_hit:
  "db_read_fault w url = None \<Longrightarrow> web_cache st url = Some c \<Longrightarrow> c \<noteq> [] \<Longrightarrow>
     obtain_content w url snippet st = (Inr c, log_event (CacheGet url) st)"
  by (simp add: obtain_content_def get_cached_content_def)

lemma obtain_miss_empty:
  "db_read_fault w url = None \<Longrightarrow> web_cache st url = None \<or> web_cache st url = Some [] \<Longrightarrow>
   fetched_text w url = [] \<Longrightarrow>
     obtain_content w url snippet st
       = (Inr (fallback snippet), log_event (Fetch url) (log_event (CacheGet url) st))"
  by (auto simp add: obtain_content_def get_cached_content_def fetch_clean_text_eq fallback_def)

lemma obtain_miss_saved:
  "db_read_fault w url = None \<Longrightarrow> web_cache st url = None \<or> web_cache st url = Some [] \<Longrightarrow>
   fetched_text w url = c \<Longrightarrow> c \<noteq> [] \<Longrightarrow> db_write_fault w url c = None \<Longrightarrow>
     obtain_content w url snippet st
       = (Inr c, (log_event (CachePut url c) (log_event (Fetch url) (log_event (CacheGet url) st)))
                   \<lparr>web_cache := (web_cache st)(url \<mapsto> c)\<rparr>)"
  by (auto simp add: obtain_content_def get_cached_content_def fetch_clean_text_eq save_to_cache_def)

lemma obtain_write_fault:
  "db_read_fault w url = None \<Longrightarrow> web_cache st url = None \<or> web_cache st url = Some [] \<Longrightarrow>
   fetched_text w url = c \<Longrightarrow> c \<noteq> [] \<Longrightarrow> db_write_fault w url c = Some e \<Longrightarrow>
     obtain_content w url snippet st
       = (Inl e, log_event (CachePut url c) (log_event (Fetch url) (log_event (CacheGet url) st)))"
  by (auto simp add: obtain_content_def get_cached_content_def fetch_clean_text_eq save_to_cache_def)

text \<open>The five ways one run of lines 152 to 159 can go.\<close>

lemma obtain_content_cases:
  assumes "obtain_content w url snippet st = (r, st')"
  obtains
    (read_fault) e where "db_read_fault w url = Some e" "r = Inl e"
      "trace st' = trace st @ [CacheGet url]" "web_cache st' = web_cache st"
  | (hit) c where "db_read_fault w url = None" "web_cache st url = Some c" "c \<noteq> []" "r = Inr c"
      "trace st' = trace st @ [CacheGet url]" "web_cache st' = web_cache st"
  | (empty) "db_read_fault w url = None" "web_cache st url = None \<or> web_cache st url = Some []"
      "fetched_text w url = []" "r = Inr (fallback snippet)"
      "trace st' = trace st @ [CacheGet url, Fetch url]" "web_cache st' = web_cache st"
  | (saved) c where "db_read_fault w url = None" "web_cache st url = None \<or> web_cache st url = Some []"
      "fetched_text w url = c" "c \<noteq> []" "db_write_fault w url c = None" "r = Inr c"
      "trace st' = trace st @ [CacheGet url, Fetch url, CachePut url c]"
      "web_cache st' = (web_cache st)(url \<mapsto> c)"
  | (write_fault) c e where "db_read_fault w url = None" "web_cache st url = None \<or> web_cache st url = Some []"
      "fetched_text w url = c" "c \<noteq> []" "db_write_fault w url c = Some e" "r = Inl e"
      "trace st' = trace st @ [CacheGet url, Fetch url, CachePut url c]"
      "web_cache st' = web_cache st"
proof (cases "db_read_fault w url")
  case (Some e)
  with assms obtain_read_fault [OF Some, of snippet st] read_fault show ?thesis by auto
next
  case None
  show ?thesis
  proof (cases "web_cache st url = None \<or> web_cache st url = Some []")
    case False
    then obtain c where c: "web_cache st url = Some c" "c \<noteq> []" by auto
    with assms obtain_hit [OF None c, of snippet] hit None show ?thesis by auto
  next
    case miss: True
    show ?thesis
    proof (cases "fetched_text w url = []")
      case True
      with assms obtain_miss_empty [OF None miss True, of snippet] empty None miss show ?thesis by auto
    next
      case ne: False
      show ?thesis
      proof (cases "db_write_fault w url (fetched_text w url)")
        case wn: None
        from assms obtain_miss_saved [OF None miss refl ne wn, of snippet]
        have "r = Inr (fetched_text w url)"
          "trace st' = trace st @ [CacheGet url, Fetch url, CachePut url (fetched_text w url)]"
          "web_cache st' = (web_cache st)(url \<mapsto> fetched_text w url)" by auto
        with saved [OF None miss refl ne wn] show ?thesis by blast
      next
        case (Some e)
        from assms obtain_write_fault [OF None miss refl ne Some, of snippet]
        have "r = Inl e"
          "trace st' = trace st @ [CacheGet url, Fetch url, CachePut url (fetched_text w url)]"
          "web_cache st' = web_cache st" by auto
        with write_fault [OF None miss refl ne Some] show ?thesis by blast
      qed
    qed
  qed
qed

lemma loop_body_eq:
  "loop_body w res contents st =
     (case url_retained w (url_of res) of
        Inl e \<Rightarrow> (Inl e, st)
      | Inr False \<Rightarrow> (Inr contents, st)
      | Inr True \<Rightarrow>
          (case obtain_content w (url_of res) (snippet_of res) st of
             (Inl e, st1) \<Rightarrow> (Inl e, st1)
           | (Inr c, st1) \<Rightarrow> (Inr (contents @ [format_block (title_of res) (url_of res) c]), st1)))"
  unfolding loop_body_def url_of_def title_of_def snippet_of_def Let_def by (rule refl)

lemma loop_body_skip:
  "url_retained w (url_of res) = Inr False \<Longrightarrow> loop_body w res contents st = (Inr contents, st)"
  by (simp add: loop_body_eq)

lemma loop_body_raise:
  "url_retained w (url_of res) = Inl e \<Longrightarrow> loop_body w res contents st = (Inl e, st)"
  by (simp add: loop_body_eq)

lemma loop_body_kept:
  "kept w res \<Longrightarrow> obtain_content w (url_of res) (snippet_of res) st = (Inr c, st1) \<Longrightarrow>
     loop_body w res contents st = (Inr (contents @ [format_block (title_of res) (url_of res) c]), st1)"
  by (simp add: loop_body_eq kept_def)

lemma loop_body_kept_raise:
  "kept w res \<Longrightarrow> obtain_content w (url_of res) (snippet_of res) st = (Inl e, st1) \<Longrightarrow>
     loop_body w res contents st = (Inl e, st1)"
  by (simp add: loop_body_eq kept_def)

text \<open>The ways one iteration can go.\<close>

lemma loop_body_cases:
  assumes "loop_body w res contents st = (r, st1)"
  obtains
    (parse_error) e where "url_retained w (url_of res) = Inl e" "\<not> kept w res" "r = Inl e" "st1 = st"
  | (skipped) "url_retained w (url_of res) = Inr False" "\<not> kept w res" "r = Inr contents" "st1 = st"
  | (raised) e where "kept w res"
      "obtain_content w (url_of res) (snippet_of res) st = (Inl e, st1)" "r = Inl e"
  | (block) c where "kept w res"
      "obtain_content w (url_of res) (snippet_of res) st = (Inr c, st1)"
      "r = Inr (contents @ [format_block (title_of res) (url_of res) c])"
proof (cases "url_retained w (url_of res)")
  case (Inl e)
  with assms parse_error show ?thesis by (simp add: loop_body_eq kept_def)
next
  case (Inr b)
  show ?thesis
  proof (cases b)
    case False
    with Inr assms skipped show ?thesis by (simp add: loop_body_eq kept_def)
  next
    case True
    with Inr have k: "kept w res" by (simp add: kept_def)
    obtain r1 st2 where oc: "obtain_content w (url_of res) (snippet_of res) st = (r1, st2)"
      by (cases "obtain_content w (url_of res) (snippet_of res) st")
    show ?thesis
    proof (cases r1)
      case (Inl e)
      with assms oc loop_body_kept_raise [OF k, of st e st2 contents] raised [OF k] show ?thesis by auto
    next
      case (Inr c)
      with assms oc loop_body_kept [OF k, of st c st2 contents] block [OF k] show ?thesis by auto
    qed
  qed
qed

lemma obtain_content_events:
  assumes "obtain_content w url snippet st = (r, st1)"
  shows "\<exists>new. trace st1 = trace st @ new \<and> lookups new = [url] \<and> set (fetches new) \<subseteq> {url}
            \<and> prompts new = []"
  using assms
  by (cases rule: obtain_content_cases) (auto simp: lookups_def fetches_def prompts_def)

lemma loop_body_events:
  assumes "loop_body w res contents st = (r, st1)"
  shows "\<exists>new. trace st1 = trace st @ new \<and> prompts new = []
            \<and> set (fetches new) \<subseteq> set (lookups new)
            \<and> lookups new = (if kept w res then [url_of res] else [])"
  using assms
proof (cases rule: loop_body_cases)
  case (parse_error e)
  then show ?thesis by (simp add: lookups_def fetches_def prompts_def)
next
  case skipped
  then show ?thesis by (simp add: lookups_def fetches_def prompts_def)
next
  case (raised e)
  with obtain_content_events [OF raised(2)] show ?thesis by auto
next
  case (block c)
  with obtain_content_events [OF block(2)] show ?thesis by auto
qed

lemma for_loop_events:
  assumes "for_loop w rs cs st = (r, st')"
  shows "\<exists>new. trace st' = trace st @ new \<and> prompts new = []
            \<and> set (fetches new) \<subseteq> set (lookups new)
            \<and> prefix (lookups new) (map url_of (filter (kept w) rs))
            \<and> ((\<exists>cs'. r = Inr cs') \<longrightarrow> lookups new = map url_of (filter (kept w) rs))"
  using assms
proof (induction rs arbitrary: cs st)
  case Nil
  then show ?case by (simp add: lookups_def fetches_def prompts_def)
next
  case (Cons res rest)
  obtain r1 st1 where lb: "loop_body w res cs st = (r1, st1)"
    by (cases "loop_body w res cs st")
  from loop_body_events [OF lb] obtain new1 where
    n1: "trace st1 = trace st @ new1" "prompts new1 = []"
        "set (fetches new1) \<subseteq> set (lookups new1)"
        "lookups new1 = (if kept w res then [url_of res] else [])" by blast
  show ?case
  proof (cases r1)
    case (Inl e)
    with Cons.prems lb have "r = Inl e" "st' = st1" by auto
    with n1 show ?thesis by auto
  next
    case (Inr cs1)
    with Cons.prems lb have "for_loop w rest cs1 st1 = (r, st')" by simp
    from Cons.IH [OF this] obtain new2 where
      n2: "trace st' = trace st1 @ new2" "prompts new2 = []"
          "set (fetches new2) \<subseteq> set (lookups new2)"
          "prefix (lookups new2) (map url_of (filter (kept w) rest))"
          "(\<exists>cs'. r = Inr cs') \<longrightarrow> lookups new2 = map url_of (filter (kept w) rest)" by blast
    have "trace st' = trace st @ (new1 @ new2)" using n1 n2 by simp
    moreover have "prompts (new1 @ new2) = []" using n1 n2 by simp
    moreover have "set (fetches (new1 @ new2)) \<subseteq> set (lookups (new1 @ new2))"
      using n1(3) n2(3) by auto
    moreover have "prefix (lookups (new1 @ new2)) (map url_of (filter (kept w) (res # rest)))"
      using n1(4) n2(4) by simp
    moreover have "(\<exists>cs'. r = Inr cs') \<longrightarrow>
        lookups (new1 @ new2) = map url_of (filter (kept w) (res # rest))"
      using n1(4) n2(5) by simp
    ultimately show ?thesis by blast
  qed
qed

lemma format_block_from:
  assumes "c \<noteq> []"
    and "m (url_of res) = Some c \<or> c = fetched_text w (url_of res) \<or> c = fallback (snippet_of res)"
  shows "block_from w m res (format_block (title_of res) (url_of res) c)"
  unfolding block_from_def format_block_def using assms by (intro exI [of _ c]) simp

lemma fallback_nonempty: "fallback s \<noteq> []"
  by (simp add: fallback_def)

lemma obtain_content_block:
  assumes oc: "obtain_content w (url_of res) (snippet_of res) st = (Inr c, st1)"
    and inv: "\<forall>u. web_cache st u = m u \<or> web_cache st u = Some (fetched_text w u)"
  shows "block_from w m res (format_block (title_of res) (url_of res) c)
         \<and> (\<forall>u. web_cache st1 u = m u \<or> web_cache st1 u = Some (fetched_text w u))"
  using oc
proof (cases rule: obtain_content_cases)
  case (hit c')
  with inv have "m (url_of res) = Some c \<or> c = fetched_text w (url_of res)" by (metis option.inject sum.inject(2))
  with hit inv show ?thesis using format_block_from [of c m res w] by auto
next
  case empty
  with inv show ?thesis using format_block_from [of c m res w] fallback_nonempty by auto
next
  case (saved c')
  with inv show ?thesis using format_block_from [of c m res w] by auto
qed simp_all

lemma for_loop_blocks:
  assumes "for_loop w rs cs st = (Inr cs', st')"
    and "\<forall>u. web_cache st u = m u \<or> web_cache st u = Some (fetched_text w u)"
  shows "\<exists>bs. cs' = cs @ bs \<and> list_all2 (block_from w m) (filter (kept w) rs) bs"
  using assms
proof (induction rs arbitrary: cs st)
  case Nil
  then show ?case by simp
next
  case (Cons res rest)
  obtain r1 st1 where lb: "loop_body w res cs st = (r1, st1)"
    by (cases "loop_body w res cs st")
  from lb show ?case
  proof (cases rule: loop_body_cases)
    case (parse_error e)
    with Cons.prems lb show ?thesis by simp
  next
    case skipped
    with Cons.prems lb have "for_loop w rest cs st = (Inr cs', st')" by simp
    from Cons.IH [OF this Cons.prems(2)] skipped show ?thesis by simp
  next
    case (raised e)
    with Cons.prems lb show ?thesis by simp
  next
    case (block c)
    let ?b = "format_block (title_of res) (url_of res) c"
    from obtain_content_block [OF block(2) Cons.prems(2)]
    have b: "block_from w m res ?b"
      and inv1: "\<forall>u. web_cache st1 u = m u \<or> web_cache st1 u = Some (fetched_text w u)" by auto
    from Cons.prems lb block have "for_loop w rest (cs @ [?b]) st1 = (Inr cs', st')" by simp
    from Cons.IH [OF this inv1] obtain bs where
      bs: "cs' = (cs @ [?b]) @ bs" "list_all2 (block_from w m) (filter (kept w) rest) bs" by blast
    then have "cs' = cs @ (?b # bs)" by simp
    moreover have "list_all2 (block_from w m) (filter (kept w) (res # rest)) (?b # bs)"
      using block(1) b bs(2) by simp
    ultimately show ?thesis by blast
  qed
qed


lemma for_loop_all_skipped:
  "\<forall>res\<in>set rs. url_retained w (url_of res) = Inr False \<Longrightarrow> for_loop w rs cs st = (Inr cs, st)"
  by (induction rs) (simp_all add: loop_body_skip)

lemma for_loop_read_fault:
  assumes "res \<in> set rs" and "kept w res" and "db_read_fault w (url_of res) = Some e"
  shows "\<exists>e' st'. for_loop w rs cs st = (Inl e', st')"
  using assms(1)
proof (induction rs arbitrary: cs st)
  case Nil
  then show ?case by simp
next
  case (Cons x rest)
  obtain r1 st1 where lb: "loop_body w x cs st = (r1, st1)"
    by (cases "loop_body w x cs st")
  show ?case
  proof (cases r1)
    case (Inl e1)
    with lb show ?thesis by simp
  next
    case (Inr cs1)
    have "x \<noteq> res"
    proof
      assume "x = res"
      with lb Inr loop_body_kept_raise [OF assms(2) obtain_read_fault [OF assms(3), of "snippet_of res" st], of cs]
      show False by simp
    qed
    with Cons.prems have "res \<in> set rest" by simp
    from Cons.IH [OF this, of cs1 st1] lb Inr show ?thesis by simp
  qed
qed

lemmas world_defs = demo_world_def demo_entries_def ok_response_def refused_world_def unavailable_world_def no_entries_world_def
lemmas run_defs = tavily_like_search_def search_request_def process_results_def parse_rss_results_def
  raise_for_status_def search_params_def search_failed_def MAX_RESULTS_def loop_body_def url_retained_def
  obtain_content_def get_cached_content_def save_to_cache_def fetch_clean_text_def fetch_body_def
  query_local_llm_def llm_body_def llm_payload_def response_field_def strip_def isspace_def dict_get_def
  log_event_def format_block_def build_prompt_def attribute_error_def OLLAMA_API_def empty_state_def Let_def

lemma sublist_failed_request: "sublist ''failed'' (search_failed e)"
proof (cases e)
  case (RequestException m)
  have "''[!] Search request failed: '' @ m = ''[!] Search request '' @ ''failed'' @ ('': '' @ m)" by simp
  then show ?thesis unfolding search_failed_def RequestException sublist_def by (simp only: error.case) blast
next
  case (OtherException m)
  have "''[!] Search failed: '' @ m = ''[!] Search '' @ ''failed'' @ ('': '' @ m)" by simp
  then show ?thesis unfolding search_failed_def OtherException sublist_def by (simp only: error.case) blast
qed

lemma raise_for_status_bad:
  "400 \<le> status_code r \<Longrightarrow> status_code r < 600 \<Longrightarrow> \<exists>m. raise_for_status r = Inl (RequestException m)"
  by (auto simp: raise_for_status_def)


lemma query_local_llm_eq:
  "query_local_llm w p st = (fst (query_local_llm w p st), log_event (Generate p) st)"
  by (simp add: query_local_llm_def Let_def split: sum.splits)

text \<open>The four ways lines 136 to 181 can go.\<close>

lemma process_results_cases:
  assumes "process_results w q rs st = (r, st')"
  obtains
    (none) "rs = []" "r = Inr ''No search results found.''" "st' = st"
  | (raised) e where "rs \<noteq> []" "for_loop w (take 3 rs) [] st = (Inl e, st')" "r = Inl e"
  | (unusable) "rs \<noteq> []" "for_loop w (take 3 rs) [] st = (Inr [], st')"
      "r = Inr ''No usable content retrieved.''"
  | (generated) contents st1 where "rs \<noteq> []"
      "for_loop w (take 3 rs) [] st = (Inr contents, st1)" "contents \<noteq> []"
      "r = Inr (fst (query_local_llm w (build_prompt contents q) st1))"
      "st' = log_event (Generate (build_prompt contents q)) st1"
proof (cases "rs = []")
  case True
  with assms none show ?thesis by (simp add: process_results_def)
next
  case ne: False
  obtain r1 st1 where fl: "for_loop w (take 3 rs) [] st = (r1, st1)"
    by (cases "for_loop w (take 3 rs) [] st")
  show ?thesis
  proof (cases r1)
    case (Inl e)
    with assms ne fl raised show ?thesis by (simp add: process_results_def MAX_RESULTS_def)
  next
    case (Inr contents)
    show ?thesis
    proof (cases "contents = []")
      case True
      with assms ne fl Inr unusable show ?thesis by (simp add: process_results_def MAX_RESULTS_def)
    next
      case False
      obtain a st2 where q: "query_local_llm w (build_prompt contents q) st1 = (a, st2)"
        by (cases "query_local_llm w (build_prompt contents q) st1")
      with query_local_llm_eq [of w "build_prompt contents q" st1]
      have a: "a = fst (query_local_llm w (build_prompt contents q) st1)"
        "st2 = log_event (Generate (build_prompt contents q)) st1" by simp_all
      have "process_results w q rs st = (Inr a, st2)"
        using ne fl Inr False q by (simp add: process_results_def MAX_RESULTS_def)
      with a have "process_results w q rs st
              = (Inr (fst (query_local_llm w (build_prompt contents q) st1)),
                 log_event (Generate (build_prompt contents q)) st1)" by simp
      with assms have "r = Inr (fst (query_local_llm w (build_prompt contents q) st1))"
        "st' = log_event (Generate (build_prompt contents q)) st1" by simp_all
      with generated [OF ne _ False] fl Inr show ?thesis by simp
    qed
  qed
qed

lemma process_results_events:
  assumes "process_results w q rs st = (r, st')"
  shows "\<exists>new. trace st' = trace st @ new
            \<and> prefix (lookups new) (map url_of (filter (kept w) (take 3 rs)))
            \<and> set (fetches new) \<subseteq> set (lookups new)"
  using assms
proof (cases rule: process_results_cases)
  case none
  then show ?thesis by (simp add: lookups_def fetches_def)
next
  case (raised e)
  from for_loop_events [OF raised(2)] show ?thesis by blast
next
  case unusable
  from for_loop_events [OF unusable(2)] show ?thesis by blast
next
  case (generated contents st1)
  from for_loop_events [OF generated(2)] obtain new where
    n: "trace st1 = trace st @ new" "set (fetches new) \<subseteq> set (lookups new)"
       "prefix (lookups new) (map url_of (filter (kept w) (take 3 rs)))" by blast
  let ?new = "new @ [Generate (build_prompt contents q)]"
  have "trace st' = trace st @ ?new" using generated(5) n(1) by simp
  moreover have "lookups ?new = lookups new" "fetches ?new = fetches new"
    by (simp_all add: lookups_def fetches_def)
  ultimately show ?thesis using n by metis
qed

lemma discarded_not_kept:
  assumes "url_of res = [] \<or> (\<exists>s. urlparse_scheme w (url_of res) = Inr s \<and> s \<noteq> ''http'' \<and> s \<noteq> ''https'')"
  shows "url_retained w (url_of res) = Inr False"
  using assms by (auto simp: url_retained_def)


lemma tavily_like_search_eq:
  "search_request w query = Inr results \<Longrightarrow>
     tavily_like_search w query st = process_results w query results (log_event (Search query) st)"
  by (simp add: tavily_like_search_def)

lemma process_results_prompts:
  assumes "process_results w q rs st = (r, st')"
  obtains
    (silent) "prompts (trace st') = prompts (trace st)"
      "\<forall>contents st1. for_loop w (take 3 rs) [] st = (Inr contents, st1) \<longrightarrow> contents = []"
  | (prompted) contents st1 where "for_loop w (take 3 rs) [] st = (Inr contents, st1)"
      "contents \<noteq> []" "prompts (trace st') = prompts (trace st) @ [build_prompt contents q]"
  using assms
proof (cases rule: process_results_cases)
  case none
  then have "take 3 rs = []" by simp
  with none silent show ?thesis by simp
next
  case (raised e)
  from for_loop_events [OF raised(2)] raised silent show ?thesis by auto
next
  case unusable
  from for_loop_events [OF unusable(2)] unusable silent show ?thesis by auto
next
  case (generated contents st1)
  from for_loop_events [OF generated(2)] obtain new where
    "trace st1 = trace st @ new" "prompts new = []" by blast
  with generated(5) have "prompts (trace st') = prompts (trace st) @ [build_prompt contents q]"
    by (simp add: prompts_def)
  with prompted [OF generated(2,3)] show ?thesis by simp
qed

lemma prompts_Search [simp]: "prompts [Search q] = []"
  by (simp add: prompts_def)

lemmas demo_defs = world_defs demo_query_def demo_results_def demo_blocks_def long_world_def long_blocks_def
  ftp_world_def ftp_results_def

lemma demo_search: "search_request demo_world demo_query = Inr demo_results"
  by (simp add: demo_defs run_defs)

lemma long_search: "search_request long_world demo_query = Inr demo_results"
  by (simp add: demo_defs run_defs)

lemma demo_run:
  "tavily_like_search demo_world demo_query empty_state
     = (Inr ''Paris is the capital of France (example.org).'',
        \<lparr>web_cache = [''https://example.org/france'' \<mapsto> ''Paris is the capital of France.''],
         trace = [Search demo_query,
                  CacheGet ''https://example.org/france'',
                  Fetch ''https://example.org/france'',
                  CachePut ''https://example.org/france'' ''Paris is the capital of France.'',
                  CacheGet ''http://example.org/down'',
                  Fetch ''http://example.org/down'',
                  Generate (build_prompt demo_blocks demo_query)]\<rparr>)"
  by (simp add: demo_defs run_defs)

lemma long_run:
  "tavily_like_search long_world demo_query empty_state
     = (Inr ''Paris is the capital of France (example.org).'',
        \<lparr>web_cache = [''https://example.org/france'' \<mapsto> replicate 2500 (CHR ''a'')],
         trace = [Search demo_query,
                  CacheGet ''https://example.org/france'',
                  Fetch ''https://example.org/france'',
                  CachePut ''https://example.org/france'' (replicate 2500 (CHR ''a'')),
                  CacheGet ''http://example.org/down'',
                  Fetch ''http://example.org/down'',
                  Generate (build_prompt long_blocks demo_query)]\<rparr>)"
  by (simp add: demo_defs run_defs)

lemma ftp_search: "search_request ftp_world demo_query = Inr ftp_results"
  by (simp add: demo_defs run_defs)


lemma fetched_text_extracted: "fetched_text w u = c \<Longrightarrow> c \<noteq> [] \<Longrightarrow> extracted w u c"
  unfolding fetched_text_def fetch_body_def extracted_def
  by (auto split: sum.splits option.splits)

lemma sound_writes_refl: "sound_writes w st st []"
  by (simp add: sound_writes_def puts_def)

lemma sound_writes_trans:
  assumes "sound_writes w st st1 new1" and "sound_writes w st1 st2 new2"
  shows "sound_writes w st st2 (new1 @ new2)"
  using assms unfolding sound_writes_def
  by (auto simp: puts_append) metis+

lemma sound_writes_log:
  "put_of ev = [] \<Longrightarrow> sound_writes w st (log_event ev st) [ev]"
  by (simp add: sound_writes_def puts_def)

lemma obtain_content_sound:
  assumes "obtain_content w url snippet st = (r, st1)"
  shows "\<exists>new. sound_writes w st st1 new"
  using assms
proof (cases rule: obtain_content_cases)
  case (saved c)
  then have "sound_writes w st st1 [CacheGet url, Fetch url, CachePut url c]"
    using fetched_text_extracted [of w url c] by (simp add: sound_writes_def puts_def)
  then show ?thesis ..
next
  case (write_fault c e)
  then have "sound_writes w st st1 [CacheGet url, Fetch url, CachePut url c]"
    using fetched_text_extracted [of w url c] by (simp add: sound_writes_def puts_def)
  then show ?thesis ..
next
  case (read_fault e)
  then have "sound_writes w st st1 [CacheGet url]" by (simp add: sound_writes_def puts_def)
  then show ?thesis ..
next
  case (hit c)
  then have "sound_writes w st st1 [CacheGet url]" by (simp add: sound_writes_def puts_def)
  then show ?thesis ..
next
  case empty
  then have "sound_writes w st st1 [CacheGet url, Fetch url]" by (simp add: sound_writes_def puts_def)
  then show ?thesis ..
qed

lemma loop_body_sound:
  assumes "loop_body w res cs st = (r, st1)"
  shows "\<exists>new. sound_writes w st st1 new"
  using assms
proof (cases rule: loop_body_cases)
  case (parse_error e)
  with sound_writes_refl show ?thesis by blast
next
  case skipped
  with sound_writes_refl show ?thesis by blast
next
  case (raised e)
  from obtain_content_sound [OF raised(2)] show ?thesis .
next
  case (block c)
  from obtain_content_sound [OF block(2)] show ?thesis .
qed

lemma for_loop_sound:
  assumes "for_loop w rs cs st = (r, st')"
  shows "\<exists>new. sound_writes w st st' new"
  using assms
proof (induction rs arbitrary: cs st)
  case Nil
  with sound_writes_refl show ?case by auto
next
  case (Cons res rest)
  obtain r1 st1 where lb: "loop_body w res cs st = (r1, st1)"
    by (cases "loop_body w res cs st")
  from loop_body_sound [OF lb] obtain new1 where n1: "sound_writes w st st1 new1" ..
  show ?case
  proof (cases r1)
    case (Inl e)
    with Cons.prems lb have "st' = st1" by simp
    with n1 show ?thesis by blast
  next
    case (Inr cs1)
    with Cons.prems lb have "for_loop w rest cs1 st1 = (r, st')" by simp
    from Cons.IH [OF this] obtain new2 where "sound_writes w st1 st' new2" ..
    with n1 sound_writes_trans show ?thesis by blast
  qed
qed

lemma process_results_sound:
  assumes "process_results w q rs st = (r, st')"
  shows "\<exists>new. sound_writes w st st' new"
  using assms
proof (cases rule: process_results_cases)
  case none
  with sound_writes_refl show ?thesis by blast
next
  case (raised e)
  from for_loop_sound [OF raised(2)] show ?thesis .
next
  case unusable
  from for_loop_sound [OF unusable(2)] show ?thesis .
next
  case (generated contents st1)
  from for_loop_sound [OF generated(2)] obtain new where "sound_writes w st st1 new" ..
  moreover have "sound_writes w st1 st' [Generate (build_prompt contents q)]"
    using generated(5) sound_writes_log by simp
  ultimately show ?thesis using sound_writes_trans by blast
qed

lemma tavily_like_search_sound:
  assumes "tavily_like_search w query st = (r, st')"
  shows "\<exists>new. sound_writes w st st' new"
proof (cases "search_request w query")
  case (Inl msg)
  with assms have "st' = log_event (Search query) st" by (simp add: tavily_like_search_def)
  with sound_writes_log [of "Search query" w st] show ?thesis by auto
next
  case (Inr results)
  with assms have "process_results w query results (log_event (Search query) st) = (r, st')"
    by (simp add: tavily_like_search_eq)
  from process_results_sound [OF this] obtain new where
    "sound_writes w (log_event (Search query) st) st' new" ..
  with sound_writes_trans [OF sound_writes_log [of "Search query" w st]] show ?thesis by auto
qed

lemmas url_defs = france_url_def france_text_def down_url_def france_cached_def

lemma demo_obtain_france:
  "obtain_content demo_world france_url ''France info'' empty_state = (Inr france_text, france_cached)"
  by (simp add: demo_defs run_defs url_defs)

lemma demo_obtain_down:
  "obtain_content demo_world down_url [] empty_state
     = (Inr ''No content available.'',
        \<lparr>web_cache = Map.empty, trace = [CacheGet down_url, Fetch down_url]\<rparr>)"
  by (simp add: demo_defs run_defs url_defs)

lemma demo_fetched_down: "fetched_text demo_world down_url = []"
  by (simp add: demo_defs run_defs url_defs fetched_text_def)

lemma for_loop_write_fault:
  assumes "res \<in> set rs" and "kept w res"
    and "db_read_fault w (url_of res) = None"
    and "web_cache st (url_of res) = None \<or> web_cache st (url_of res) = Some []"
    and "fetched_text w (url_of res) = c" and "c \<noteq> []"
    and "db_write_fault w (url_of res) c = Some e"
  shows "\<exists>e' st'. for_loop w rs cs st = (Inl e', st')"
  using assms(1,4)
proof (induction rs arbitrary: cs st)
  case Nil
  then show ?case by simp
next
  case (Cons x rest)
  obtain r1 st1 where lb: "loop_body w x cs st = (r1, st1)"
    by (cases "loop_body w x cs st")
  from lb show ?case
  proof (cases rule: loop_body_cases)
    case (parse_error e1)
    with lb show ?thesis by simp
  next
    case (raised e1)
    with lb show ?thesis by simp
  next
    case skipped
    with assms(2) have "x \<noteq> res" by auto
    with Cons.prems have "res \<in> set rest" by simp
    from Cons.IH [OF this, of st cs] Cons.prems(2) lb skipped show ?thesis by simp
  next
    case (block c1)
    have ne: "url_of x \<noteq> url_of res"
    proof
      assume eq: "url_of x = url_of res"
      from block(2) show False
        using eq assms(3,5,6,7) Cons.prems(2)
        by (cases rule: obtain_content_cases) auto
    qed
    then have "x \<noteq> res" by auto
    with Cons.prems have in_rest: "res \<in> set rest" by simp
    from block(2) have "web_cache st1 (url_of res) = web_cache st (url_of res)"
      using ne by (cases rule: obtain_content_cases) simp_all
    with Cons.prems(2) have miss:
      "web_cache st1 (url_of res) = None \<or> web_cache st1 (url_of res) = Some []" by simp
    from Cons.IH [OF in_rest miss] lb block show ?thesis by simp
  qed
qed

lemma for_loop_no_prompt:
  assumes "for_loop w rs cs st = (r, st')"
  shows "prompts (trace st') = prompts (trace st)"
proof -
  from for_loop_events [OF assms] obtain new where
    "trace st' = trace st @ new" "prompts new = []" by blast
  then show ?thesis by simp
qed

lemma tavily_raises:
  assumes "search_request w query = Inr results"
    and "for_loop w (take 3 results) [] (log_event (Search query) st) = (Inl e, st')"
  shows "tavily_like_search w query st = (Inl e, st') \<and> prompts (trace st') = prompts (trace st)"
proof -
  from assms(2) have "take 3 results \<noteq> []" by auto
  then have "results \<noteq> []" by auto
  with assms have "tavily_like_search w query st = (Inl e, st')"
    by (simp add: tavily_like_search_eq process_results_def MAX_RESULTS_def)
  moreover from for_loop_no_prompt [OF assms(2)]
  have "prompts (trace st') = prompts (trace st)" by simp
  ultimately show ?thesis by simp
qed

lemma france_result_facts:
  "france_result \<in> set (take 3 demo_results)" "url_of france_result = france_url"
  "kept demo_world france_result" "kept db_down_world france_result"
  "kept read_only_world france_result"
  by (simp_all add: france_result_def demo_results_def url_of_def dict_get_def url_defs kept_def
      url_retained_def demo_world_def db_down_world_def read_only_world_def)

lemma down_search: "search_request db_down_world demo_query = Inr demo_results"
  by (simp add: db_down_world_def demo_defs run_defs)

lemma read_only_search: "search_request read_only_world demo_query = Inr demo_results"
  by (simp add: read_only_world_def demo_defs run_defs)

lemma read_only_fetched: "fetched_text read_only_world france_url = france_text"
  by (simp add: read_only_world_def demo_defs run_defs url_defs fetched_text_def)

lemma query_local_llm_answer:
  "query_local_llm w p st = (llm_answer w p, log_event (Generate p) st)"
  by (simp add: query_local_llm_def llm_answer_def Let_def split: sum.splits)

lemma format_block_placeholder:
  "format_block (title_of res) (url_of res) (fallback []) = placeholder_block res"
  by (simp add: format_block_def fallback_def placeholder_block_def)

lemma for_loop_placeholders:
  assumes "\<forall>res\<in>set rs. (\<exists>b. url_retained w (url_of res) = Inr b)
            \<and> (kept w res \<longrightarrow> db_read_fault w (url_of res) = None
                 \<and> (web_cache st (url_of res) = None \<or> web_cache st (url_of res) = Some [])
                 \<and> fetched_text w (url_of res) = [] \<and> snippet_of res = [])"
  shows "\<exists>st'. for_loop w rs cs st = (Inr (cs @ map placeholder_block (filter (kept w) rs)), st')
            \<and> web_cache st' = web_cache st
            \<and> prompts (trace st') = prompts (trace st)"
  using assms
proof (induction rs arbitrary: cs st)
  case Nil
  then show ?case by simp
next
  case (Cons res rest)
  then have rest: "\<forall>res\<in>set rest. (\<exists>b. url_retained w (url_of res) = Inr b)
            \<and> (kept w res \<longrightarrow> db_read_fault w (url_of res) = None
                 \<and> (web_cache st (url_of res) = None \<or> web_cache st (url_of res) = Some [])
                 \<and> fetched_text w (url_of res) = [] \<and> snippet_of res = [])" by simp
  show ?case
  proof (cases "kept w res")
    case False
    with Cons.prems have "url_retained w (url_of res) = Inr False"
      by (auto simp: kept_def)
    then have "loop_body w res cs st = (Inr cs, st)" by (rule loop_body_skip)
    with Cons.IH [OF rest, of cs] False show ?thesis by simp
  next
    case True
    with Cons.prems have h: "db_read_fault w (url_of res) = None"
      "web_cache st (url_of res) = None \<or> web_cache st (url_of res) = Some []"
      "fetched_text w (url_of res) = []" "snippet_of res = []" by simp_all
    let ?st1 = "log_event (Fetch (url_of res)) (log_event (CacheGet (url_of res)) st)"
    from obtain_miss_empty [OF h(1,2,3), of "snippet_of res"] h(4)
    have "obtain_content w (url_of res) (snippet_of res) st = (Inr (fallback []), ?st1)" by simp
    from loop_body_kept [OF True this, of cs]
    have lb: "loop_body w res cs st = (Inr (cs @ [placeholder_block res]), ?st1)"
      by (simp add: format_block_placeholder)
    have "\<forall>res\<in>set rest. (\<exists>b. url_retained w (url_of res) = Inr b)
            \<and> (kept w res \<longrightarrow> db_read_fault w (url_of res) = None
                 \<and> (web_cache ?st1 (url_of res) = None \<or> web_cache ?st1 (url_of res) = Some [])
                 \<and> fetched_text w (url_of res) = [] \<and> snippet_of res = [])"
      using rest by simp
    from Cons.IH [OF this, of "cs @ [placeholder_block res]"] obtain st' where
      "for_loop w rest (cs @ [placeholder_block res]) ?st1
         = (Inr ((cs @ [placeholder_block res]) @ map placeholder_block (filter (kept w) rest)), st')"
      "web_cache st' = web_cache ?st1" "prompts (trace st') = prompts (trace ?st1)" by blast
    with lb True show ?thesis by (simp add: prompts_def)
  qed
qed

lemma placeholder_search: "search_request placeholder_world demo_query = Inr [down_result]"
  by (simp add: placeholder_world_def down_result_def demo_defs run_defs)

lemma down_result_facts:
  "url_of down_result = down_url" "snippet_of down_result = []"
  "url_retained placeholder_world down_url = Inr True" "kept placeholder_world down_result"
  "db_read_fault placeholder_world down_url = None"
  "fetched_text placeholder_world down_url = []"
  by (simp_all add: down_result_def url_of_def snippet_of_def dict_get_def url_defs kept_def
      url_retained_def fetched_text_def fetch_body_def placeholder_world_def demo_world_def)

lemma ftp_result_facts:
  "url_retained ftp_world ''ftp://example.org/file'' = Inr False"
  "filter (kept ftp_world) (take 3 ftp_results) = []"
  by (simp_all add: ftp_results_def ftp_world_def demo_world_def kept_def url_retained_def
      url_of_def dict_get_def)

lemmas llm_defs = no_field_world_def llm_refused_world_def llm_error_world_def bad_json_world_def
  array_json_world_def null_field_world_def linkless_world_def

lemma response_field_sentinel:
  assumes "(\<forall>kvs. j \<noteq> JObject kvs)
           \<or> (\<exists>kvs v. j = JObject kvs \<and> map_of (rev kvs) ''response'' = Some v \<and> (\<forall>s. v \<noteq> JString s))"
  shows "\<exists>e. response_field j = Inl e"
  using assms by (auto simp: response_field_def split: json.splits option.splits)

lemma query_local_llm_sentinel:
  "llm_body w prompt = Inl e \<Longrightarrow>
     query_local_llm w prompt st = (''Error generating answer.'', log_event (Generate prompt) st)"
  by (simp add: query_local_llm_def)

lemma obtain_content_fetches:
  assumes "obtain_content w url snippet st = (Inr c, st1)" and "trace st1 = trace st @ new"
  shows "fetches new = (if web_cache st url = None \<or> web_cache st url = Some [] then [url] else [])
       \<and> (\<forall>u. u \<noteq> url \<longrightarrow> web_cache st1 u = web_cache st u)
       \<and> (web_cache st1 url = web_cache st url
            \<or> (\<exists>c. c \<noteq> [] \<and> web_cache st1 url = Some c))"
  using assms(1)
proof (cases rule: obtain_content_cases)
  case (hit c')
  with assms(2) show ?thesis by (auto simp: fetches_def)
next
  case empty
  with assms(2) show ?thesis by (auto simp: fetches_def)
next
  case (saved c')
  with assms(2) show ?thesis by (auto simp: fetches_def)
qed simp_all

text \<open>On completion, the pages fetched are those of the kept results the cache had nothing for.\<close>

lemma for_loop_fetches:
  assumes "for_loop w rs cs st = (Inr cs', st')" and "trace st' = trace st @ new"
  shows "set (fetches new)
           = set (map url_of (filter (\<lambda>res. kept w res
                    \<and> (web_cache st (url_of res) = None \<or> web_cache st (url_of res) = Some [])) rs))"
  using assms
proof (induction rs arbitrary: cs st new)
  case Nil
  then show ?case by (simp add: fetches_def)
next
  case (Cons res rest)
  obtain r1 st1 where lb: "loop_body w res cs st = (r1, st1)"
    by (cases "loop_body w res cs st")
  from lb show ?case
  proof (cases rule: loop_body_cases)
    case (parse_error e)
    with Cons.prems lb show ?thesis by simp
  next
    case (raised e)
    with Cons.prems lb show ?thesis by simp
  next
    case skipped
    with Cons.prems lb have "for_loop w rest cs st = (Inr cs', st')" by simp
    from Cons.IH [OF this Cons.prems(2)] skipped show ?thesis by simp
  next
    case (block c)
    let ?u = "url_of res"
    let ?miss = "\<lambda>s res. web_cache s (url_of res) = None \<or> web_cache s (url_of res) = Some []"
    from obtain_content_events [OF block(2)] obtain new1 where
      n1: "trace st1 = trace st @ new1" by blast
    from Cons.prems lb block
    have rest: "for_loop w rest (cs @ [format_block (title_of res) ?u c]) st1 = (Inr cs', st')"
      by simp
    from for_loop_events [OF rest] obtain new2 where n2: "trace st' = trace st1 @ new2" by blast
    from n1 n2 Cons.prems(2) have new: "new = new1 @ new2" by simp
    from obtain_content_fetches [OF block(2) n1]
    have f1: "fetches new1 = (if ?miss st res then [?u] else [])"
      and other: "\<forall>u. u \<noteq> ?u \<longrightarrow> web_cache st1 u = web_cache st u"
      and same: "web_cache st1 ?u = web_cache st ?u \<or> (\<exists>c. c \<noteq> [] \<and> web_cache st1 ?u = Some c)"
      by simp_all
    from Cons.IH [OF rest n2]
    have f2: "set (fetches new2)
        = set (map url_of (filter (\<lambda>r. kept w r \<and> ?miss st1 r) rest))" .
    show ?thesis
    proof (cases "?miss st res")
      case True
      have "insert ?u (set (map url_of (filter (\<lambda>r. kept w r \<and> ?miss st1 r) rest)))
          = insert ?u (set (map url_of (filter (\<lambda>r. kept w r \<and> ?miss st r) rest)))"
      proof (intro set_eqI iffI)
        fix x
        assume "x \<in> insert ?u (set (map url_of (filter (\<lambda>r. kept w r \<and> ?miss st1 r) rest)))"
        then show "x \<in> insert ?u (set (map url_of (filter (\<lambda>r. kept w r \<and> ?miss st r) rest)))"
          using other by (cases "x = ?u") auto
      next
        fix x
        assume "x \<in> insert ?u (set (map url_of (filter (\<lambda>r. kept w r \<and> ?miss st r) rest)))"
        then show "x \<in> insert ?u (set (map url_of (filter (\<lambda>r. kept w r \<and> ?miss st1 r) rest)))"
          using other by (cases "x = ?u") auto
      qed
      with True f1 f2 new block(1) show ?thesis by simp
    next
      case False
      with same have same': "web_cache st1 ?u = web_cache st ?u \<or> (\<exists>c. c \<noteq> [] \<and> web_cache st1 ?u = Some c)"
        by simp
      from False obtain c0 where c0: "web_cache st ?u = Some c0" "c0 \<noteq> []" by auto
      from block(2) have "web_cache st1 = web_cache st"
        using c0 by (cases rule: obtain_content_cases) auto
      with False f1 f2 new block(1) show ?thesis by auto
    qed
  qed
qed

lemma process_results_complete:
  assumes "process_results w q rs st = (Inr a, st')" and "trace st' = trace st @ new"
  shows "lookups new = map url_of (filter (kept w) (take 3 rs))
       \<and> set (fetches new)
           = set (map url_of (filter (\<lambda>res. kept w res
                    \<and> (web_cache st (url_of res) = None \<or> web_cache st (url_of res) = Some []))
                  (take 3 rs)))"
  using assms(1)
proof (cases rule: process_results_cases)
  case none
  with assms(2) show ?thesis by (simp add: lookups_def fetches_def)
next
  case (raised e)
  then show ?thesis by simp
next
  case unusable
  from for_loop_events [OF unusable(2)] obtain new' where
    "trace st' = trace st @ new'" "lookups new' = map url_of (filter (kept w) (take 3 rs))"
    by blast
  with assms(2) have "lookups new = map url_of (filter (kept w) (take 3 rs))" by simp
  with for_loop_fetches [OF unusable(2) assms(2)] show ?thesis by simp
next
  case (generated contents st1)
  from for_loop_events [OF generated(2)] obtain new1 where
    n1: "trace st1 = trace st @ new1" "lookups new1 = map url_of (filter (kept w) (take 3 rs))"
    by blast
  with generated(5) assms(2) have new: "new = new1 @ [Generate (build_prompt contents q)]"
    by simp
  from for_loop_fetches [OF generated(2) n1(1)] n1(2) new show ?thesis
    by (simp add: lookups_def fetches_def)
qed

lemma demo_kept_urls:
  "map url_of (filter (kept demo_world) (take 3 demo_results)) = [france_url, down_url]"
  by (simp add: demo_results_def demo_world_def kept_def url_retained_def url_of_def dict_get_def
      url_defs)

section \<open>The search request\<close>

text \<open>
  Claim C3. When the search request fails, by an exception of the HTTP library or by a
  status from 400 to 599, \<open>tavily_like_search\<close> returns a message that contains the word
  "failed"; when the request succeeds and no result is parsed from the feed, it returns
  the literal "No search results found.". In each case it returns, it does not raise,
  and the state it leaves is the initial one with the search alone added to the log:
  no cache access, no page fetch and no generation call.
\<close>

theorem search_failure_is_terminal:
  "(requests_get w (SEARXNG_URL w) (search_params query) = Inl e \<longrightarrow>
      tavily_like_search w query st = (Inr (search_failed e), log_event (Search query) st)
      \<and> sublist ''failed'' (search_failed e))
   \<and> (requests_get w (SEARXNG_URL w) (search_params query) = Inr resp
        \<and> 400 \<le> status_code resp \<and> status_code resp < 600 \<longrightarrow>
      (\<exists>m. tavily_like_search w query st
              = (Inr (''[!] Search request failed: '' @ m), log_event (Search query) st)
           \<and> sublist ''failed'' (''[!] Search request failed: '' @ m)))
   \<and> (requests_get w (SEARXNG_URL w) (search_params query) = Inr resp
        \<and> raise_for_status resp = Inr () \<and> parse_rss_results w (resp_text resp) = [] \<longrightarrow>
      tavily_like_search w query st = (Inr ''No search results found.'', log_event (Search query) st))"
proof (intro conjI impI)
  assume "requests_get w (SEARXNG_URL w) (search_params query) = Inl e"
  then show "tavily_like_search w query st = (Inr (search_failed e), log_event (Search query) st)"
    by (simp add: tavily_like_search_def search_request_def)
next
  show "sublist ''failed'' (search_failed e)" by (rule sublist_failed_request)
next
  assume a: "requests_get w (SEARXNG_URL w) (search_params query) = Inr resp
        \<and> 400 \<le> status_code resp \<and> status_code resp < 600"
  then obtain m where m: "raise_for_status resp = Inl (RequestException m)"
    using raise_for_status_bad by blast
  have "tavily_like_search w query st
          = (Inr (''[!] Search request failed: '' @ m), log_event (Search query) st)"
    using a m by (simp add: tavily_like_search_def search_request_def search_failed_def)
  moreover have "sublist ''failed'' (''[!] Search request failed: '' @ m)"
    using sublist_failed_request [of "RequestException m"] by (simp add: search_failed_def)
  ultimately show "\<exists>m. tavily_like_search w query st
              = (Inr (''[!] Search request failed: '' @ m), log_event (Search query) st)
           \<and> sublist ''failed'' (''[!] Search request failed: '' @ m)" by blast
next
  assume "requests_get w (SEARXNG_URL w) (search_params query) = Inr resp
        \<and> raise_for_status resp = Inr () \<and> parse_rss_results w (resp_text resp) = []"
  then show "tavily_like_search w query st = (Inr ''No search results found.'', log_event (Search query) st)"
    by (simp add: tavily_like_search_def search_request_def process_results_def)
qed

theorem search_failure_is_terminal_witness:
  "requests_get refused_world (SEARXNG_URL refused_world) (search_params ''capital of France'')
     = Inl (RequestException ''Connection refused'')
   \<and> tavily_like_search refused_world ''capital of France'' empty_state
     = (Inr ''[!] Search request failed: Connection refused'',
        \<lparr>web_cache = Map.empty, trace = [Search ''capital of France'']\<rparr>)
   \<and> sublist ''failed'' ''[!] Search request failed: Connection refused''
   \<and> requests_get unavailable_world (SEARXNG_URL unavailable_world) (search_params ''capital of France'')
     = Inr \<lparr>status_code = 503, reason = ''Service Unavailable'',
            resp_url = ''http://localhost:8888/search'', resp_text = []\<rparr>
   \<and> (\<exists>m. tavily_like_search unavailable_world ''capital of France'' empty_state
           = (Inr (''[!] Search request failed: '' @ m),
              \<lparr>web_cache = Map.empty, trace = [Search ''capital of France'']\<rparr>)
         \<and> sublist ''failed'' (''[!] Search request failed: '' @ m))
   \<and> requests_get no_entries_world (SEARXNG_URL no_entries_world) (search_params ''capital of France'')
     = Inr (ok_response ''feed'')
   \<and> raise_for_status (ok_response ''feed'') = Inr ()
   \<and> parse_rss_results no_entries_world (resp_text (ok_response ''feed'')) = []
   \<and> tavily_like_search no_entries_world ''capital of France'' empty_state
     = (Inr ''No search results found.'',
        \<lparr>web_cache = Map.empty, trace = [Search ''capital of France'']\<rparr>)"
proof -
  have refused:
    "requests_get refused_world (SEARXNG_URL refused_world) (search_params ''capital of France'')
       = Inl (RequestException ''Connection refused'')"
    by (simp add: refused_world_def demo_world_def)
  have unavailable:
    "requests_get unavailable_world (SEARXNG_URL unavailable_world) (search_params ''capital of France'')
       = Inr \<lparr>status_code = 503, reason = ''Service Unavailable'',
              resp_url = ''http://localhost:8888/search'', resp_text = []\<rparr>"
    by (simp add: unavailable_world_def demo_world_def)
  have no_entries:
    "requests_get no_entries_world (SEARXNG_URL no_entries_world) (search_params ''capital of France'')
       = Inr (ok_response ''feed'')"
    "raise_for_status (ok_response ''feed'') = Inr ()"
    "parse_rss_results no_entries_world (resp_text (ok_response ''feed'')) = []"
    by (simp_all add: no_entries_world_def demo_world_def raise_for_status_def ok_response_def
        parse_rss_results_def)
  show ?thesis
    using refused unavailable no_entries
      search_failure_is_terminal [of refused_world "''capital of France''"
        "RequestException ''Connection refused''" empty_state]
      search_failure_is_terminal [of unavailable_world "''capital of France''" _ empty_state
        "\<lparr>status_code = 503, reason = ''Service Unavailable'',
          resp_url = ''http://localhost:8888/search'', resp_text = []\<rparr>"]
      search_failure_is_terminal [of no_entries_world "''capital of France''" _ empty_state
        "ok_response ''feed''"]
    by (simp add: search_failed_def log_event_def empty_state_def)
qed

section \<open>The cap on the results\<close>

text \<open>
  Claim C8. When the search returns more than three results, the loop runs over exactly
  the first three, in feed order, whatever the others are: the outcome is that of the
  three alone. When \<open>tavily_like_search\<close> returns, the URLs looked up in the cache are,
  in order, those of all the kept results among the first three and no other, and the
  pages fetched are those of the kept results among the three for which the cache held
  no content. When it raises, the URLs looked up are a prefix of these. In both cases
  every page fetched has been looked up first, and a result whose URL is absent or whose
  scheme is neither http nor https is neither looked up nor fetched.
\<close>

theorem top_three_only:
  assumes "search_request w query = Inr results" and "3 < length results"
    and "tavily_like_search w query st = (r, st')"
  shows "length (take 3 results) = 3
       \<and> process_results w query (take 3 results) (log_event (Search query) st) = (r, st')
       \<and> (\<exists>new. trace st' = trace st @ Search query # new
             \<and> prefix (lookups new) (map url_of (filter (kept w) (take 3 results)))
             \<and> set (fetches new) \<subseteq> set (lookups new)
             \<and> ((\<exists>answer. r = Inr answer) \<longrightarrow>
                   lookups new = map url_of (filter (kept w) (take 3 results))
                   \<and> set (fetches new)
                       = set (map url_of (filter (\<lambda>res. kept w res
                                \<and> (web_cache st (url_of res) = None
                                     \<or> web_cache st (url_of res) = Some []))
                              (take 3 results))))
             \<and> (\<forall>res\<in>set (take 3 results).
                   url_of res = []
                   \<or> (\<exists>s. urlparse_scheme w (url_of res) = Inr s \<and> s \<noteq> ''http'' \<and> s \<noteq> ''https'')
                   \<longrightarrow> url_of res \<notin> set (lookups new) \<and> url_of res \<notin> set (fetches new)))"
proof (intro conjI)
  let ?st0 = "log_event (Search query) st"
  have pr: "process_results w query results ?st0 = (r, st')"
    using assms(1,3) by (simp add: tavily_like_search_eq)
  show "length (take 3 results) = 3" using assms(2) by simp
  have "results \<noteq> []" "take 3 results \<noteq> []" using assms(2) by auto
  then have "process_results w query (take 3 results) ?st0 = process_results w query results ?st0"
    by (simp add: process_results_def MAX_RESULTS_def)
  with pr show "process_results w query (take 3 results) ?st0 = (r, st')" by simp
  from process_results_events [OF pr] obtain new where
    n: "trace st' = trace ?st0 @ new"
       "prefix (lookups new) (map url_of (filter (kept w) (take 3 results)))"
       "set (fetches new) \<subseteq> set (lookups new)" by blast
  have complete: "(\<exists>answer. r = Inr answer) \<longrightarrow>
       lookups new = map url_of (filter (kept w) (take 3 results))
       \<and> set (fetches new)
           = set (map url_of (filter (\<lambda>res. kept w res
                    \<and> (web_cache st (url_of res) = None \<or> web_cache st (url_of res) = Some []))
                  (take 3 results)))"
  proof
    assume "\<exists>answer. r = Inr answer"
    then obtain a where "r = Inr a" ..
    with pr have "process_results w query results ?st0 = (Inr a, st')" by simp
    from process_results_complete [OF this n(1)]
    show "lookups new = map url_of (filter (kept w) (take 3 results))
       \<and> set (fetches new)
           = set (map url_of (filter (\<lambda>res. kept w res
                    \<and> (web_cache st (url_of res) = None \<or> web_cache st (url_of res) = Some []))
                  (take 3 results)))" by simp
  qed
  have "\<forall>res\<in>set (take 3 results).
          url_of res = []
          \<or> (\<exists>s. urlparse_scheme w (url_of res) = Inr s \<and> s \<noteq> ''http'' \<and> s \<noteq> ''https'')
          \<longrightarrow> url_of res \<notin> set (lookups new) \<and> url_of res \<notin> set (fetches new)"
  proof (intro ballI impI)
    fix res
    assume d: "url_of res = []
          \<or> (\<exists>s. urlparse_scheme w (url_of res) = Inr s \<and> s \<noteq> ''http'' \<and> s \<noteq> ''https'')"
    have "url_of res \<notin> set (lookups new)"
    proof
      assume "url_of res \<in> set (lookups new)"
      with n(2) have "url_of res \<in> set (map url_of (filter (kept w) (take 3 results)))"
        using set_mono_prefix by blast
      then obtain res' where "kept w res'" "url_of res' = url_of res" by auto
      then have "url_retained w (url_of res) = Inr True" by (simp add: kept_def)
      with discarded_not_kept [OF d] show False by simp
    qed
    with n(3) show "url_of res \<notin> set (lookups new) \<and> url_of res \<notin> set (fetches new)" by blast
  qed
  moreover have "trace st' = trace st @ Search query # new" using n(1) by simp
  ultimately show "\<exists>new. trace st' = trace st @ Search query # new
             \<and> prefix (lookups new) (map url_of (filter (kept w) (take 3 results)))
             \<and> set (fetches new) \<subseteq> set (lookups new)
             \<and> ((\<exists>answer. r = Inr answer) \<longrightarrow>
                   lookups new = map url_of (filter (kept w) (take 3 results))
                   \<and> set (fetches new)
                       = set (map url_of (filter (\<lambda>res. kept w res
                                \<and> (web_cache st (url_of res) = None
                                     \<or> web_cache st (url_of res) = Some []))
                              (take 3 results))))
             \<and> (\<forall>res\<in>set (take 3 results).
                   url_of res = []
                   \<or> (\<exists>s. urlparse_scheme w (url_of res) = Inr s \<and> s \<noteq> ''http'' \<and> s \<noteq> ''https'')
                   \<longrightarrow> url_of res \<notin> set (lookups new) \<and> url_of res \<notin> set (fetches new))"
    using n(2,3) complete by blast
qed

theorem top_three_only_witness:
  "search_request demo_world demo_query = Inr demo_results
   \<and> 3 < length demo_results
   \<and> length (take 3 demo_results) = 3
   \<and> process_results demo_world demo_query (take 3 demo_results)
         (log_event (Search demo_query) empty_state)
       = tavily_like_search demo_world demo_query empty_state
   \<and> fst (tavily_like_search demo_world demo_query empty_state)
       = Inr ''Paris is the capital of France (example.org).''
   \<and> map url_of (filter (kept demo_world) (take 3 demo_results)) = [france_url, down_url]
   \<and> lookups (trace (snd (tavily_like_search demo_world demo_query empty_state)))
       = [france_url, down_url]
   \<and> fetches (trace (snd (tavily_like_search demo_world demo_query empty_state)))
       = [france_url, down_url]
   \<and> (\<exists>new. trace (snd (tavily_like_search demo_world demo_query empty_state))
               = trace empty_state @ Search demo_query # new
          \<and> prefix (lookups new) (map url_of (filter (kept demo_world) (take 3 demo_results)))
          \<and> set (fetches new) \<subseteq> set (lookups new)
          \<and> ((\<exists>answer. fst (tavily_like_search demo_world demo_query empty_state) = Inr answer) \<longrightarrow>
                lookups new = map url_of (filter (kept demo_world) (take 3 demo_results))
                \<and> set (fetches new)
                    = set (map url_of (filter (\<lambda>res. kept demo_world res
                             \<and> (web_cache empty_state (url_of res) = None
                                  \<or> web_cache empty_state (url_of res) = Some []))
                           (take 3 demo_results))))
          \<and> (\<forall>res\<in>set (take 3 demo_results).
                url_of res = []
                \<or> (\<exists>s. urlparse_scheme demo_world (url_of res) = Inr s \<and> s \<noteq> ''http'' \<and> s \<noteq> ''https'')
                \<longrightarrow> url_of res \<notin> set (lookups new) \<and> url_of res \<notin> set (fetches new)))"
proof -
  have len: "3 < length demo_results" by (simp add: demo_results_def)
  have run: "tavily_like_search demo_world demo_query empty_state
      = (fst (tavily_like_search demo_world demo_query empty_state),
         snd (tavily_like_search demo_world demo_query empty_state))" by simp
  have vals: "fst (tavily_like_search demo_world demo_query empty_state)
       = Inr ''Paris is the capital of France (example.org).''"
    "lookups (trace (snd (tavily_like_search demo_world demo_query empty_state)))
       = [france_url, down_url]"
    "fetches (trace (snd (tavily_like_search demo_world demo_query empty_state)))
       = [france_url, down_url]"
    unfolding demo_run by (simp_all add: lookups_def fetches_def url_defs)
  have rest: "process_results demo_world demo_query (take 3 demo_results)
         (log_event (Search demo_query) empty_state)
       = tavily_like_search demo_world demo_query empty_state
   \<and> (\<exists>new. trace (snd (tavily_like_search demo_world demo_query empty_state))
               = trace empty_state @ Search demo_query # new
          \<and> prefix (lookups new) (map url_of (filter (kept demo_world) (take 3 demo_results)))
          \<and> set (fetches new) \<subseteq> set (lookups new)
          \<and> ((\<exists>answer. fst (tavily_like_search demo_world demo_query empty_state) = Inr answer) \<longrightarrow>
                lookups new = map url_of (filter (kept demo_world) (take 3 demo_results))
                \<and> set (fetches new)
                    = set (map url_of (filter (\<lambda>res. kept demo_world res
                             \<and> (web_cache empty_state (url_of res) = None
                                  \<or> web_cache empty_state (url_of res) = Some []))
                           (take 3 demo_results))))
          \<and> (\<forall>res\<in>set (take 3 demo_results).
                url_of res = []
                \<or> (\<exists>s. urlparse_scheme demo_world (url_of res) = Inr s \<and> s \<noteq> ''http'' \<and> s \<noteq> ''https'')
                \<longrightarrow> url_of res \<notin> set (lookups new) \<and> url_of res \<notin> set (fetches new)))"
    using top_three_only [OF demo_search len run] by simp
  from demo_search len vals demo_kept_urls rest show ?thesis by simp
qed

section \<open>The truncation of the content\<close>

text \<open>
  Claim C9. Every prompt handed to the generation client is built from one block per
  kept result, and the content portion of a block is the first \<open>min L 2000\<close> characters
  of the content of that result, of length \<open>L\<close>, be it the cached text, the fetched text
  or the fallback: never more than 2000 characters.
\<close>

theorem prompt_content_truncated:
  assumes "search_request w query = Inr results"
    and "tavily_like_search w query st = (r, st')"
    and "prompts (trace st') = prompts (trace st) @ [p]"
  shows "\<exists>blocks. p = build_prompt blocks query
          \<and> list_all2
               (\<lambda>res b. \<exists>c. (web_cache st (url_of res) = Some c \<or> c = fetched_text w (url_of res)
                              \<or> c = fallback (snippet_of res))
                  \<and> b = ''Title: '' @ title_of res @ [CHR 0x0A] @ ''URL: '' @ url_of res @ [CHR 0x0A]
                        @ ''Content: '' @ take 2000 c
                  \<and> length (take 2000 c) = min (length c) 2000
                  \<and> length (take 2000 c) \<le> 2000)
               (filter (kept w) (take 3 results)) blocks"
proof -
  let ?st0 = "log_event (Search query) st"
  have pr: "process_results w query results ?st0 = (r, st')"
    using assms(1,2) by (simp add: tavily_like_search_eq)
  from pr show ?thesis
  proof (cases rule: process_results_prompts)
    case silent
    with assms(3) show ?thesis by simp
  next
    case (prompted contents st1)
    with assms(3) have p: "p = build_prompt contents query" by simp
    have "\<forall>u. web_cache ?st0 u = web_cache st u \<or> web_cache ?st0 u = Some (fetched_text w u)"
      by simp
    from for_loop_blocks [OF prompted(1) this]
    have "list_all2 (block_from w (web_cache st)) (filter (kept w) (take 3 results)) contents"
      by simp
    then have "list_all2
               (\<lambda>res b. \<exists>c. (web_cache st (url_of res) = Some c \<or> c = fetched_text w (url_of res)
                              \<or> c = fallback (snippet_of res))
                  \<and> b = ''Title: '' @ title_of res @ [CHR 0x0A] @ ''URL: '' @ url_of res @ [CHR 0x0A]
                        @ ''Content: '' @ take 2000 c
                  \<and> length (take 2000 c) = min (length c) 2000
                  \<and> length (take 2000 c) \<le> 2000)
               (filter (kept w) (take 3 results)) contents"
      by (rule list_all2_mono) (auto simp: block_from_def)
    with p show ?thesis by blast
  qed
qed

theorem prompt_content_truncated_witness:
  "search_request long_world demo_query = Inr demo_results
   \<and> prompts (trace (snd (tavily_like_search long_world demo_query empty_state)))
       = prompts (trace empty_state) @ [build_prompt long_blocks demo_query]
   \<and> (\<exists>blocks. build_prompt long_blocks demo_query = build_prompt blocks demo_query
          \<and> list_all2
               (\<lambda>res b. \<exists>c. (web_cache empty_state (url_of res) = Some c
                              \<or> c = fetched_text long_world (url_of res)
                              \<or> c = fallback (snippet_of res))
                  \<and> b = ''Title: '' @ title_of res @ [CHR 0x0A] @ ''URL: '' @ url_of res @ [CHR 0x0A]
                        @ ''Content: '' @ take 2000 c
                  \<and> length (take 2000 c) = min (length c) 2000
                  \<and> length (take 2000 c) \<le> 2000)
               (filter (kept long_world) (take 3 demo_results)) blocks)"
proof -
  have run: "tavily_like_search long_world demo_query empty_state
      = (fst (tavily_like_search long_world demo_query empty_state),
         snd (tavily_like_search long_world demo_query empty_state))" by simp
  have ps: "prompts (trace (snd (tavily_like_search long_world demo_query empty_state)))
       = prompts (trace empty_state) @ [build_prompt long_blocks demo_query]"
    unfolding long_run by (simp add: prompts_def empty_state_def)
  show ?thesis using long_search ps prompt_content_truncated [OF long_search run ps] by simp
qed

section \<open>Blocks and the terminal message\<close>



section \<open>What is written to the cache\<close>

text \<open>
  Claim C7. Over a whole run of \<open>tavily_like_search\<close>, returning or raising, every text
  handed to \<open>save_to_cache\<close> is non-empty and is what the extractor returned for the
  page fetched from that URL, and the table changes only at a URL for which such a text
  was put. When the extraction is empty, so that the content is the snippet or the
  placeholder, nothing is put and the table is left as it was.
\<close>

theorem cache_holds_extractor_output_only:
  "(tavily_like_search w query st = (r, st') \<longrightarrow>
      (\<exists>new. trace st' = trace st @ new
         \<and> (\<forall>u c. (u, c) \<in> set (puts new) \<longrightarrow> c \<noteq> [] \<and> extracted w u c)
         \<and> (\<forall>u. web_cache st' u = web_cache st u
                 \<or> (\<exists>c. web_cache st' u = Some c \<and> (u, c) \<in> set (puts new)))))
   \<and> (obtain_content w url snippet st = (r1, st1) \<and> fetched_text w url = [] \<longrightarrow>
        web_cache st1 = web_cache st \<and> (\<exists>new. trace st1 = trace st @ new \<and> puts new = []))"
proof (intro conjI impI)
  assume "tavily_like_search w query st = (r, st')"
  from tavily_like_search_sound [OF this]
  show "\<exists>new. trace st' = trace st @ new
         \<and> (\<forall>u c. (u, c) \<in> set (puts new) \<longrightarrow> c \<noteq> [] \<and> extracted w u c)
         \<and> (\<forall>u. web_cache st' u = web_cache st u
                 \<or> (\<exists>c. web_cache st' u = Some c \<and> (u, c) \<in> set (puts new)))"
    unfolding sound_writes_def by blast
next
  assume a: "obtain_content w url snippet st = (r1, st1) \<and> fetched_text w url = []"
  then have oc: "obtain_content w url snippet st = (r1, st1)" and ft: "fetched_text w url = []"
    by simp_all
  from oc show "web_cache st1 = web_cache st" using ft
    by (cases rule: obtain_content_cases) simp_all
  from oc show "\<exists>new. trace st1 = trace st @ new \<and> puts new = []" using ft
    by (cases rule: obtain_content_cases) (simp_all add: puts_def)
qed

theorem cache_holds_extractor_output_only_witness:
  "tavily_like_search demo_world demo_query empty_state
     = (fst (tavily_like_search demo_world demo_query empty_state),
        snd (tavily_like_search demo_world demo_query empty_state))
   \<and> puts (trace (snd (tavily_like_search demo_world demo_query empty_state)))
       = [(france_url, france_text)]
   \<and> (\<exists>new. trace (snd (tavily_like_search demo_world demo_query empty_state))
              = trace empty_state @ new
         \<and> (\<forall>u c. (u, c) \<in> set (puts new) \<longrightarrow> c \<noteq> [] \<and> extracted demo_world u c)
         \<and> (\<forall>u. web_cache (snd (tavily_like_search demo_world demo_query empty_state)) u
                   = web_cache empty_state u
                 \<or> (\<exists>c. web_cache (snd (tavily_like_search demo_world demo_query empty_state)) u
                         = Some c \<and> (u, c) \<in> set (puts new))))
   \<and> obtain_content demo_world down_url [] empty_state
       = (Inr ''No content available.'',
          \<lparr>web_cache = Map.empty, trace = [CacheGet down_url, Fetch down_url]\<rparr>)
   \<and> fetched_text demo_world down_url = []
   \<and> web_cache \<lparr>web_cache = Map.empty, trace = [CacheGet down_url, Fetch down_url]\<rparr>
       = web_cache empty_state
   \<and> (\<exists>new. trace \<lparr>web_cache = Map.empty, trace = [CacheGet down_url, Fetch down_url]\<rparr>
              = trace empty_state @ new \<and> puts new = [])"
proof -
  have run: "tavily_like_search demo_world demo_query empty_state
     = (fst (tavily_like_search demo_world demo_query empty_state),
        snd (tavily_like_search demo_world demo_query empty_state))" by simp
  have ps: "puts (trace (snd (tavily_like_search demo_world demo_query empty_state)))
       = [(france_url, france_text)]"
    unfolding demo_run by (simp add: puts_def url_defs)
  show ?thesis
    using run ps demo_obtain_down demo_fetched_down
      cache_holds_extractor_output_only [of demo_world demo_query empty_state
        "fst (tavily_like_search demo_world demo_query empty_state)"
        "snd (tavily_like_search demo_world demo_query empty_state)"
        down_url "[]" "Inr ''No content available.''"
        "\<lparr>web_cache = Map.empty, trace = [CacheGet down_url, Fetch down_url]\<rparr>"]
    by simp
qed

section \<open>A second fetch of the same page\<close>

text \<open>
  Claim C6. When a first run of lines 152 to 159 on a URL has fetched the page and
  stored its non-empty text, a second run on the same URL, from the state the first one
  left, returns the same content after the cache lookup alone: over both runs the page
  is fetched exactly once.
\<close>

theorem second_fetch_served_from_cache:
  assumes "obtain_content w url snippet st = (Inr c, st1)"
    and "trace st1 = trace st @ [CacheGet url, Fetch url, CachePut url c]"
  shows "c \<noteq> [] \<and> web_cache st1 url = Some c
       \<and> obtain_content w url snippet' st1 = (Inr c, log_event (CacheGet url) st1)
       \<and> fetches (trace (log_event (CacheGet url) st1)) = fetches (trace st) @ [url]"
  using assms(1)
proof (cases rule: obtain_content_cases)
  case (saved c')
  then have c: "c \<noteq> []" "web_cache st1 url = Some c" by simp_all
  from obtain_hit [OF saved(1) c(2) c(1)]
  have "obtain_content w url snippet' st1 = (Inr c, log_event (CacheGet url) st1)" .
  moreover have "fetches (trace (log_event (CacheGet url) st1)) = fetches (trace st) @ [url]"
    using assms(2) by (simp add: fetches_def)
  ultimately show ?thesis using c by simp
qed (use assms(2) in simp_all)

theorem second_fetch_served_from_cache_witness:
  "obtain_content demo_world france_url ''France info'' empty_state = (Inr france_text, france_cached)
   \<and> trace france_cached
       = trace empty_state @ [CacheGet france_url, Fetch france_url, CachePut france_url france_text]
   \<and> france_text \<noteq> []
   \<and> web_cache france_cached france_url = Some france_text
   \<and> obtain_content demo_world france_url ''Another snippet'' france_cached
       = (Inr france_text, log_event (CacheGet france_url) france_cached)
   \<and> fetches (trace (log_event (CacheGet france_url) france_cached))
       = fetches (trace empty_state) @ [france_url]"
proof -
  have tr: "trace france_cached
       = trace empty_state @ [CacheGet france_url, Fetch france_url, CachePut france_url france_text]"
    by (simp add: france_cached_def empty_state_def)
  show ?thesis
    using demo_obtain_france tr
      second_fetch_served_from_cache [OF demo_obtain_france tr, of "''Another snippet''"]
    by simp
qed

section \<open>Errors of the cache store\<close>

text \<open>
  Claim C1 says that an error of the cache store is caught and the page fetched live.
  With the database down, the read for the first kept result raises, and the exception
  leaves \<open>tavily_like_search\<close>: no page has been fetched and no answer generated.
\<close>

theorem cache_error_caught_counterexample:
  "db_read_fault db_down_world france_url = Some (OtherException ''could not connect to server'')
   \<and> tavily_like_search db_down_world demo_query empty_state
       = (Inl (OtherException ''could not connect to server''),
          \<lparr>web_cache = Map.empty, trace = [Search demo_query, CacheGet france_url]\<rparr>)"
  by (simp add: db_down_world_def demo_defs run_defs url_defs)

text \<open>
  Claim C1, as amended. A store-level error is not caught. A failing read leaves
  \<open>get_cached_content\<close> as an exception and a failing write leaves \<open>save_to_cache\<close> as
  one; when the search returned results and one of the first three is kept and has a
  URL on which the read fails, or on which the read finds nothing, the fetch gives a
  non-empty text and the write fails, \<open>tavily_like_search\<close> raises and makes no
  generation call. Only when the read does not fail and finds no content is the page
  fetched live.
\<close>

theorem cache_errors_propagate:
  "(db_read_fault w url = Some e \<longrightarrow>
      get_cached_content w url st = (Inl e, log_event (CacheGet url) st)
      \<and> obtain_content w url snippet st = (Inl e, log_event (CacheGet url) st))
   \<and> (db_write_fault w url content = Some e \<longrightarrow>
      save_to_cache w url content st = (Inl e, log_event (CachePut url content) st))
   \<and> (search_request w query = Inr results \<and> res \<in> set (take 3 results) \<and> kept w res
        \<and> db_read_fault w (url_of res) = Some e \<longrightarrow>
      (\<exists>e' st'. tavily_like_search w query st = (Inl e', st')
          \<and> prompts (trace st') = prompts (trace st)))
   \<and> (search_request w query = Inr results \<and> res \<in> set (take 3 results) \<and> kept w res
        \<and> db_read_fault w (url_of res) = None
        \<and> (web_cache st (url_of res) = None \<or> web_cache st (url_of res) = Some [])
        \<and> fetched_text w (url_of res) \<noteq> []
        \<and> db_write_fault w (url_of res) (fetched_text w (url_of res)) = Some e \<longrightarrow>
      (\<exists>e' st'. tavily_like_search w query st = (Inl e', st')
          \<and> prompts (trace st') = prompts (trace st)))
   \<and> (db_read_fault w url = None \<and> (web_cache st url = None \<or> web_cache st url = Some []) \<longrightarrow>
      fetches (trace (snd (obtain_content w url snippet st))) = fetches (trace st) @ [url])"
proof (intro conjI impI)
  assume "db_read_fault w url = Some e"
  then show "get_cached_content w url st = (Inl e, log_event (CacheGet url) st)"
    and "obtain_content w url snippet st = (Inl e, log_event (CacheGet url) st)"
    by (simp_all add: get_cached_content_def obtain_read_fault)
next
  assume "db_write_fault w url content = Some e"
  then show "save_to_cache w url content st = (Inl e, log_event (CachePut url content) st)"
    by (simp add: save_to_cache_def)
next
  assume a: "search_request w query = Inr results \<and> res \<in> set (take 3 results) \<and> kept w res
        \<and> db_read_fault w (url_of res) = Some e"
  then obtain e' st' where
    "for_loop w (take 3 results) [] (log_event (Search query) st) = (Inl e', st')"
    using for_loop_read_fault [of res "take 3 results" w e "[]" "log_event (Search query) st"]
    by blast
  with a tavily_raises show "\<exists>e' st'. tavily_like_search w query st = (Inl e', st')
          \<and> prompts (trace st') = prompts (trace st)" by blast
next
  assume a: "search_request w query = Inr results \<and> res \<in> set (take 3 results) \<and> kept w res
        \<and> db_read_fault w (url_of res) = None
        \<and> (web_cache st (url_of res) = None \<or> web_cache st (url_of res) = Some [])
        \<and> fetched_text w (url_of res) \<noteq> []
        \<and> db_write_fault w (url_of res) (fetched_text w (url_of res)) = Some e"
  then have "web_cache (log_event (Search query) st) (url_of res) = None
      \<or> web_cache (log_event (Search query) st) (url_of res) = Some []" by simp
  with a obtain e' st' where
    "for_loop w (take 3 results) [] (log_event (Search query) st) = (Inl e', st')"
    using for_loop_write_fault [of res "take 3 results" w "log_event (Search query) st"
        "fetched_text w (url_of res)" e "[]"]
    by blast
  with a tavily_raises show "\<exists>e' st'. tavily_like_search w query st = (Inl e', st')
          \<and> prompts (trace st') = prompts (trace st)" by blast
next
  assume a: "db_read_fault w url = None \<and> (web_cache st url = None \<or> web_cache st url = Some [])"
  obtain r1 st1 where oc: "obtain_content w url snippet st = (r1, st1)"
    by (cases "obtain_content w url snippet st")
  from oc have "fetches (trace st1) = fetches (trace st) @ [url]"
    using a by (cases rule: obtain_content_cases) (auto simp: fetches_def)
  with oc show "fetches (trace (snd (obtain_content w url snippet st))) = fetches (trace st) @ [url]"
    by simp
qed

theorem cache_errors_propagate_witness:
  "db_read_fault db_down_world france_url = Some (OtherException ''could not connect to server'')
   \<and> get_cached_content db_down_world france_url empty_state
       = (Inl (OtherException ''could not connect to server''),
          log_event (CacheGet france_url) empty_state)
   \<and> obtain_content db_down_world france_url ''France info'' empty_state
       = (Inl (OtherException ''could not connect to server''),
          log_event (CacheGet france_url) empty_state)
   \<and> db_write_fault read_only_world france_url france_text
       = Some (OtherException ''read-only transaction'')
   \<and> save_to_cache read_only_world france_url france_text empty_state
       = (Inl (OtherException ''read-only transaction''),
          log_event (CachePut france_url france_text) empty_state)
   \<and> search_request db_down_world demo_query = Inr demo_results
   \<and> france_result \<in> set (take 3 demo_results) \<and> kept db_down_world france_result
   \<and> db_read_fault db_down_world (url_of france_result)
       = Some (OtherException ''could not connect to server'')
   \<and> (\<exists>e' st'. tavily_like_search db_down_world demo_query empty_state = (Inl e', st')
          \<and> prompts (trace st') = prompts (trace empty_state))
   \<and> search_request read_only_world demo_query = Inr demo_results
   \<and> kept read_only_world france_result
   \<and> db_read_fault read_only_world (url_of france_result) = None
   \<and> web_cache empty_state (url_of france_result) = None
   \<and> fetched_text read_only_world (url_of france_result) \<noteq> []
   \<and> db_write_fault read_only_world (url_of france_result)
         (fetched_text read_only_world (url_of france_result))
       = Some (OtherException ''read-only transaction'')
   \<and> (\<exists>e' st'. tavily_like_search read_only_world demo_query empty_state = (Inl e', st')
          \<and> prompts (trace st') = prompts (trace empty_state))
   \<and> db_read_fault demo_world down_url = None
   \<and> web_cache empty_state down_url = None
   \<and> fetches (trace (snd (obtain_content demo_world down_url [] empty_state)))
       = fetches (trace empty_state) @ [down_url]"
proof -
  have r1: "db_read_fault db_down_world france_url = Some (OtherException ''could not connect to server'')"
    by (simp add: db_down_world_def)
  have w1: "db_write_fault read_only_world france_url france_text
       = Some (OtherException ''read-only transaction'')"
    by (simp add: read_only_world_def)
  have r2: "db_read_fault read_only_world france_url = None" "db_read_fault demo_world down_url = None"
    by (simp_all add: read_only_world_def demo_world_def)
  have e: "web_cache empty_state france_url = None" "web_cache empty_state down_url = None"
    by (simp_all add: empty_state_def)
  have t: "france_text \<noteq> []" by (simp add: france_text_def)
  show ?thesis
    using r1 w1 r2 e t france_result_facts down_search read_only_search read_only_fetched
      cache_errors_propagate [where w = db_down_world and url = france_url
        and e = "OtherException ''could not connect to server''" and st = empty_state
        and snippet = "''France info''" and content = france_text and query = demo_query
        and results = demo_results and res = france_result]
      cache_errors_propagate [where w = read_only_world and url = france_url
        and e = "OtherException ''read-only transaction''" and st = empty_state
        and snippet = "''France info''" and content = france_text and query = demo_query
        and results = demo_results and res = france_result]
      cache_errors_propagate [where w = demo_world and url = down_url
        and e = "OtherException ''read-only transaction''" and st = empty_state
        and snippet = "[]" and content = france_text and query = demo_query
        and results = demo_results and res = france_result]
    by simp
qed

section \<open>Results without content\<close>

text \<open>
  Claim C2 says that when the fetched content and the snippet of every kept result are
  empty, the terminal message is returned and nothing is generated. Here the one result
  is kept, its page cannot be fetched and its snippet is empty: its block carries the
  placeholder, the generation client is called and its answer is returned.
\<close>

theorem empty_content_is_terminal_counterexample:
  "search_request placeholder_world demo_query = Inr [down_result]
   \<and> kept placeholder_world down_result
   \<and> fetched_text placeholder_world (url_of down_result) = []
   \<and> snippet_of down_result = []
   \<and> tavily_like_search placeholder_world demo_query empty_state
       = (Inr ''Paris is the capital of France (example.org).'',
          \<lparr>web_cache = Map.empty,
           trace = [Search demo_query, CacheGet down_url, Fetch down_url,
                    Generate (build_prompt [placeholder_block down_result] demo_query)]\<rparr>)"
  by (simp add: placeholder_world_def down_result_def placeholder_block_def demo_defs run_defs
      url_defs kept_def url_of_def title_of_def snippet_of_def fetched_text_def)

text \<open>
  Claim C2, as amended. Suppose the search returned results and, for each of the first
  three, line 148 does not raise and, when the result is kept, the cache read succeeds
  and finds no content, the fetched text is empty and the snippet is empty. When no
  result is kept, \<open>tavily_like_search\<close> returns "No usable content retrieved." and the
  generation client is not called. When some result is kept, each kept result
  contributes a block whose content is the placeholder "No content available.", the
  generation client is called once on the prompt made of these blocks, and its answer
  is returned.
\<close>

theorem empty_content_gets_placeholder:
  assumes "search_request w query = Inr results" and "results \<noteq> []"
    and "\<forall>res\<in>set (take 3 results). (\<exists>b. url_retained w (url_of res) = Inr b)
            \<and> (kept w res \<longrightarrow> db_read_fault w (url_of res) = None
                 \<and> (web_cache st (url_of res) = None \<or> web_cache st (url_of res) = Some [])
                 \<and> fetched_text w (url_of res) = [] \<and> snippet_of res = [])"
  shows "(filter (kept w) (take 3 results) = [] \<longrightarrow>
            tavily_like_search w query st
              = (Inr ''No usable content retrieved.'', log_event (Search query) st))
       \<and> (filter (kept w) (take 3 results) \<noteq> [] \<longrightarrow>
            fst (tavily_like_search w query st)
              = Inr (llm_answer w
                       (build_prompt (map placeholder_block (filter (kept w) (take 3 results))) query))
            \<and> prompts (trace (snd (tavily_like_search w query st)))
              = prompts (trace st)
                @ [build_prompt (map placeholder_block (filter (kept w) (take 3 results))) query]
            \<and> web_cache (snd (tavily_like_search w query st)) = web_cache st)"
proof -
  let ?st0 = "log_event (Search query) st"
  let ?blocks = "map placeholder_block (filter (kept w) (take 3 results))"
  have "\<forall>res\<in>set (take 3 results). (\<exists>b. url_retained w (url_of res) = Inr b)
            \<and> (kept w res \<longrightarrow> db_read_fault w (url_of res) = None
                 \<and> (web_cache ?st0 (url_of res) = None \<or> web_cache ?st0 (url_of res) = Some [])
                 \<and> fetched_text w (url_of res) = [] \<and> snippet_of res = [])"
    using assms(3) by simp
  from for_loop_placeholders [OF this, of "[]"] obtain st1 where
    fl: "for_loop w (take 3 results) [] ?st0 = (Inr ?blocks, st1)"
    and c: "web_cache st1 = web_cache ?st0" and p: "prompts (trace st1) = prompts (trace ?st0)"
    by auto
  have run: "tavily_like_search w query st
      = (if ?blocks = [] then (Inr ''No usable content retrieved.'', st1)
         else (Inr (llm_answer w (build_prompt ?blocks query)),
               log_event (Generate (build_prompt ?blocks query)) st1))"
    using assms(1,2) fl
    by (simp add: tavily_like_search_eq process_results_def MAX_RESULTS_def query_local_llm_answer)
  show ?thesis
  proof (intro conjI impI)
    assume e: "filter (kept w) (take 3 results) = []"
    have "\<forall>res\<in>set (take 3 results). url_retained w (url_of res) = Inr False"
    proof
      fix res assume res: "res \<in> set (take 3 results)"
      with assms(3) obtain b where b: "url_retained w (url_of res) = Inr b" by blast
      from e res have "\<not> kept w res" by (auto simp: filter_empty_conv)
      with b show "url_retained w (url_of res) = Inr False" by (cases b) (simp_all add: kept_def)
    qed
    then have "for_loop w (take 3 results) [] ?st0 = (Inr [], ?st0)" by (rule for_loop_all_skipped)
    with fl have "st1 = ?st0" by simp
    with run e show "tavily_like_search w query st
              = (Inr ''No usable content retrieved.'', log_event (Search query) st)" by simp
  next
    assume "filter (kept w) (take 3 results) \<noteq> []"
    with run have r: "tavily_like_search w query st
        = (Inr (llm_answer w (build_prompt ?blocks query)),
           log_event (Generate (build_prompt ?blocks query)) st1)" by simp
    then show "fst (tavily_like_search w query st) = Inr (llm_answer w (build_prompt ?blocks query))"
      by simp
    from r p show "prompts (trace (snd (tavily_like_search w query st)))
              = prompts (trace st) @ [build_prompt ?blocks query]"
      by (simp add: prompts_def)
    from r c show "web_cache (snd (tavily_like_search w query st)) = web_cache st" by simp
  qed
qed

theorem empty_content_gets_placeholder_witness:
  "search_request placeholder_world demo_query = Inr [down_result]
   \<and> kept placeholder_world down_result
   \<and> db_read_fault placeholder_world (url_of down_result) = None
   \<and> web_cache empty_state (url_of down_result) = None
   \<and> fetched_text placeholder_world (url_of down_result) = []
   \<and> snippet_of down_result = []
   \<and> filter (kept placeholder_world) (take 3 [down_result]) = [down_result]
   \<and> fst (tavily_like_search placeholder_world demo_query empty_state)
       = Inr (llm_answer placeholder_world (build_prompt [placeholder_block down_result] demo_query))
   \<and> prompts (trace (snd (tavily_like_search placeholder_world demo_query empty_state)))
       = prompts (trace empty_state) @ [build_prompt [placeholder_block down_result] demo_query]
   \<and> web_cache (snd (tavily_like_search placeholder_world demo_query empty_state))
       = web_cache empty_state
   \<and> search_request ftp_world demo_query = Inr ftp_results
   \<and> filter (kept ftp_world) (take 3 ftp_results) = []
   \<and> tavily_like_search ftp_world demo_query empty_state
       = (Inr ''No usable content retrieved.'', log_event (Search demo_query) empty_state)"
proof -
  have e: "web_cache empty_state down_url = None" by (simp add: empty_state_def)
  have h1: "\<forall>res\<in>set (take 3 [down_result]).
      (\<exists>b. url_retained placeholder_world (url_of res) = Inr b)
      \<and> (kept placeholder_world res \<longrightarrow> db_read_fault placeholder_world (url_of res) = None
           \<and> (web_cache empty_state (url_of res) = None \<or> web_cache empty_state (url_of res) = Some [])
           \<and> fetched_text placeholder_world (url_of res) = [] \<and> snippet_of res = [])"
    using down_result_facts e by auto
  have h2: "\<forall>res\<in>set (take 3 ftp_results).
      (\<exists>b. url_retained ftp_world (url_of res) = Inr b)
      \<and> (kept ftp_world res \<longrightarrow> db_read_fault ftp_world (url_of res) = None
           \<and> (web_cache empty_state (url_of res) = None \<or> web_cache empty_state (url_of res) = Some [])
           \<and> fetched_text ftp_world (url_of res) = [] \<and> snippet_of res = [])"
    using ftp_result_facts(1)
    by (auto simp add: ftp_results_def kept_def url_of_def dict_get_def)
  have ne: "[down_result] \<noteq> []" "ftp_results \<noteq> []" by (simp_all add: ftp_results_def)
  have k: "filter (kept placeholder_world) (take 3 [down_result]) = [down_result]"
    using down_result_facts by simp
  show ?thesis
    using placeholder_search ftp_search down_result_facts e k ftp_result_facts(2)
      empty_content_gets_placeholder [OF placeholder_search ne(1) h1]
      empty_content_gets_placeholder [OF ftp_search ne(2) h2]
    by simp
qed

section \<open>Failures of the generation call\<close>

text \<open>
  Claim C4 says that a JSON body without the \<^verbatim>\<open>response\<close> field gives the sentinel. The
  backend answers 200 with such an object: the generation client returns the empty string.
\<close>

theorem missing_field_gives_sentinel_counterexample:
  "requests_post no_field_world OLLAMA_API (llm_payload no_field_world ''prompt'')
     = Inr (ok_response ''answer'')
   \<and> resp_json no_field_world ''answer''
       = Inr (JObject [(''model'', JString ''llama3.2:1b''), (''done'', JBool True)])
   \<and> query_local_llm no_field_world ''prompt'' empty_state
       = ([], \<lparr>web_cache = Map.empty, trace = [Generate ''prompt'']\<rparr>)
   \<and> fst (query_local_llm no_field_world ''prompt'' empty_state) \<noteq> ''Error generating answer.''"
  by (simp add: llm_defs demo_defs run_defs)

text \<open>
  Claim C4, as amended. The generation client returns a string in every case, it never
  raises. It returns the sentinel "Error generating answer." when the request raises (a
  network error, a timeout), when the status is from 400 to 599, when the body is not
  JSON, when the JSON value is not an object, and when the \<^verbatim>\<open>response\<close> field of the object
  is not a string. When the object has no \<^verbatim>\<open>response\<close> field it returns the empty string.
\<close>

theorem generation_failure_gives_sentinel:
  "(requests_post w OLLAMA_API (llm_payload w prompt) = Inl e \<longrightarrow>
      query_local_llm w prompt st = (''Error generating answer.'', log_event (Generate prompt) st))
   \<and> (requests_post w OLLAMA_API (llm_payload w prompt) = Inr resp
        \<and> 400 \<le> status_code resp \<and> status_code resp < 600 \<longrightarrow>
      query_local_llm w prompt st = (''Error generating answer.'', log_event (Generate prompt) st))
   \<and> (requests_post w OLLAMA_API (llm_payload w prompt) = Inr resp
        \<and> raise_for_status resp = Inr () \<and> resp_json w (resp_text resp) = Inl e \<longrightarrow>
      query_local_llm w prompt st = (''Error generating answer.'', log_event (Generate prompt) st))
   \<and> (requests_post w OLLAMA_API (llm_payload w prompt) = Inr resp
        \<and> raise_for_status resp = Inr () \<and> resp_json w (resp_text resp) = Inr j
        \<and> (\<forall>kvs. j \<noteq> JObject kvs) \<longrightarrow>
      query_local_llm w prompt st = (''Error generating answer.'', log_event (Generate prompt) st))
   \<and> (requests_post w OLLAMA_API (llm_payload w prompt) = Inr resp
        \<and> raise_for_status resp = Inr () \<and> resp_json w (resp_text resp) = Inr (JObject kvs)
        \<and> map_of (rev kvs) ''response'' = Some v \<and> (\<forall>s. v \<noteq> JString s) \<longrightarrow>
      query_local_llm w prompt st = (''Error generating answer.'', log_event (Generate prompt) st))
   \<and> (requests_post w OLLAMA_API (llm_payload w prompt) = Inr resp
        \<and> raise_for_status resp = Inr () \<and> resp_json w (resp_text resp) = Inr (JObject kvs)
        \<and> map_of (rev kvs) ''response'' = None \<longrightarrow>
      query_local_llm w prompt st = ([], log_event (Generate prompt) st))"
proof (intro conjI impI)
  assume "requests_post w OLLAMA_API (llm_payload w prompt) = Inl e"
  then have "llm_body w prompt = Inl e" by (simp add: llm_body_def)
  then show "query_local_llm w prompt st
      = (''Error generating answer.'', log_event (Generate prompt) st)"
    by (rule query_local_llm_sentinel)
next
  assume a: "requests_post w OLLAMA_API (llm_payload w prompt) = Inr resp
        \<and> 400 \<le> status_code resp \<and> status_code resp < 600"
  then obtain m where "raise_for_status resp = Inl (RequestException m)"
    using raise_for_status_bad by blast
  with a have "llm_body w prompt = Inl (RequestException m)" by (simp add: llm_body_def)
  then show "query_local_llm w prompt st
      = (''Error generating answer.'', log_event (Generate prompt) st)"
    by (rule query_local_llm_sentinel)
next
  assume "requests_post w OLLAMA_API (llm_payload w prompt) = Inr resp
        \<and> raise_for_status resp = Inr () \<and> resp_json w (resp_text resp) = Inl e"
  then have "llm_body w prompt = Inl e" by (simp add: llm_body_def)
  then show "query_local_llm w prompt st
      = (''Error generating answer.'', log_event (Generate prompt) st)"
    by (rule query_local_llm_sentinel)
next
  assume a: "requests_post w OLLAMA_API (llm_payload w prompt) = Inr resp
        \<and> raise_for_status resp = Inr () \<and> resp_json w (resp_text resp) = Inr j
        \<and> (\<forall>kvs. j \<noteq> JObject kvs)"
  then obtain e' where "response_field j = Inl e'" using response_field_sentinel by blast
  with a have "llm_body w prompt = Inl e'" by (simp add: llm_body_def)
  then show "query_local_llm w prompt st
      = (''Error generating answer.'', log_event (Generate prompt) st)"
    by (rule query_local_llm_sentinel)
next
  assume a: "requests_post w OLLAMA_API (llm_payload w prompt) = Inr resp
        \<and> raise_for_status resp = Inr () \<and> resp_json w (resp_text resp) = Inr (JObject kvs)
        \<and> map_of (rev kvs) ''response'' = Some v \<and> (\<forall>s. v \<noteq> JString s)"
  then obtain e' where "response_field (JObject kvs) = Inl e'"
    using response_field_sentinel [of "JObject kvs"] by blast
  with a have "llm_body w prompt = Inl e'" by (simp add: llm_body_def)
  then show "query_local_llm w prompt st
      = (''Error generating answer.'', log_event (Generate prompt) st)"
    by (rule query_local_llm_sentinel)
next
  assume a: "requests_post w OLLAMA_API (llm_payload w prompt) = Inr resp
        \<and> raise_for_status resp = Inr () \<and> resp_json w (resp_text resp) = Inr (JObject kvs)
        \<and> map_of (rev kvs) ''response'' = None"
  then have "llm_body w prompt = Inr []"
    by (simp add: llm_body_def response_field_def strip_def)
  then show "query_local_llm w prompt st = ([], log_event (Generate prompt) st)"
    by (simp add: query_local_llm_def)
qed

theorem generation_failure_gives_sentinel_witness:
  "requests_post llm_refused_world OLLAMA_API (llm_payload llm_refused_world ''prompt'')
     = Inl (RequestException ''Connection refused'')
   \<and> query_local_llm llm_refused_world ''prompt'' empty_state
       = (''Error generating answer.'', log_event (Generate ''prompt'') empty_state)
   \<and> requests_post llm_error_world OLLAMA_API (llm_payload llm_error_world ''prompt'')
       = Inr \<lparr>status_code = 500, reason = ''Internal Server Error'', resp_url = OLLAMA_API,
              resp_text = []\<rparr>
   \<and> query_local_llm llm_error_world ''prompt'' empty_state
       = (''Error generating answer.'', log_event (Generate ''prompt'') empty_state)
   \<and> requests_post bad_json_world OLLAMA_API (llm_payload bad_json_world ''prompt'')
       = Inr (ok_response ''answer'')
   \<and> raise_for_status (ok_response ''answer'') = Inr ()
   \<and> resp_json bad_json_world (resp_text (ok_response ''answer''))
       = Inl (RequestException ''Expecting value'')
   \<and> query_local_llm bad_json_world ''prompt'' empty_state
       = (''Error generating answer.'', log_event (Generate ''prompt'') empty_state)
   \<and> resp_json array_json_world (resp_text (ok_response ''answer'')) = Inr (JArray [])
   \<and> query_local_llm array_json_world ''prompt'' empty_state
       = (''Error generating answer.'', log_event (Generate ''prompt'') empty_state)
   \<and> resp_json null_field_world (resp_text (ok_response ''answer''))
       = Inr (JObject [(''response'', JNull)])
   \<and> map_of (rev [(''response'', JNull)]) ''response'' = Some JNull
   \<and> query_local_llm null_field_world ''prompt'' empty_state
       = (''Error generating answer.'', log_event (Generate ''prompt'') empty_state)
   \<and> resp_json no_field_world (resp_text (ok_response ''answer''))
       = Inr (JObject [(''model'', JString ''llama3.2:1b''), (''done'', JBool True)])
   \<and> map_of (rev [(''model'', JString ''llama3.2:1b''), (''done'', JBool True)]) ''response'' = None
   \<and> query_local_llm no_field_world ''prompt'' empty_state
       = ([], log_event (Generate ''prompt'') empty_state)"
proof -
  have posts:
    "requests_post llm_refused_world OLLAMA_API (llm_payload llm_refused_world ''prompt'')
       = Inl (RequestException ''Connection refused'')"
    "requests_post llm_error_world OLLAMA_API (llm_payload llm_error_world ''prompt'')
       = Inr \<lparr>status_code = 500, reason = ''Internal Server Error'', resp_url = OLLAMA_API,
              resp_text = []\<rparr>"
    "requests_post bad_json_world OLLAMA_API (llm_payload bad_json_world ''prompt'')
       = Inr (ok_response ''answer'')"
    "requests_post array_json_world OLLAMA_API (llm_payload array_json_world ''prompt'')
       = Inr (ok_response ''answer'')"
    "requests_post null_field_world OLLAMA_API (llm_payload null_field_world ''prompt'')
       = Inr (ok_response ''answer'')"
    "requests_post no_field_world OLLAMA_API (llm_payload no_field_world ''prompt'')
       = Inr (ok_response ''answer'')"
    by (simp_all add: llm_defs demo_world_def)
  have ok: "raise_for_status (ok_response ''answer'') = Inr ()"
    by (simp add: raise_for_status_def ok_response_def)
  have jsons:
    "resp_json bad_json_world (resp_text (ok_response ''answer''))
       = Inl (RequestException ''Expecting value'')"
    "resp_json array_json_world (resp_text (ok_response ''answer'')) = Inr (JArray [])"
    "resp_json null_field_world (resp_text (ok_response ''answer''))
       = Inr (JObject [(''response'', JNull)])"
    "resp_json no_field_world (resp_text (ok_response ''answer''))
       = Inr (JObject [(''model'', JString ''llama3.2:1b''), (''done'', JBool True)])"
    by (simp_all add: llm_defs demo_world_def)
  have fields: "map_of (rev [(''response'', JNull)]) ''response'' = Some JNull"
    "map_of (rev [(''model'', JString ''llama3.2:1b''), (''done'', JBool True)]) ''response'' = None"
    by simp_all
  show ?thesis
    using posts ok jsons fields
      generation_failure_gives_sentinel [where w = llm_refused_world and prompt = "''prompt''"
        and e = "RequestException ''Connection refused''" and st = empty_state]
      generation_failure_gives_sentinel [where w = llm_error_world and prompt = "''prompt''"
        and st = empty_state
        and resp = "\<lparr>status_code = 500, reason = ''Internal Server Error'', resp_url = OLLAMA_API,
              resp_text = []\<rparr>"]
      generation_failure_gives_sentinel [where w = bad_json_world and prompt = "''prompt''"
        and e = "RequestException ''Expecting value''" and st = empty_state
        and resp = "ok_response ''answer''"]
      generation_failure_gives_sentinel [where w = array_json_world and prompt = "''prompt''"
        and st = empty_state and resp = "ok_response ''answer''" and j = "JArray []"]
      generation_failure_gives_sentinel [where w = null_field_world and prompt = "''prompt''"
        and st = empty_state and resp = "ok_response ''answer''"
        and kvs = "[(''response'', JNull)]" and v = JNull]
      generation_failure_gives_sentinel [where w = no_field_world and prompt = "''prompt''"
        and st = empty_state and resp = "ok_response ''answer''"
        and kvs = "[(''model'', JString ''llama3.2:1b''), (''done'', JBool True)]"]
    by simp
qed

section \<open>Feed parsing\<close>

text \<open>
  Claim C5. The claim says that parsing keeps, for every feed, one result for each
  entry with a non-empty link and skips the entries without a link. The guard of line
  103 does skip an entry whose link is the empty string: the feed of \<open>demo_world\<close>
  has one, and the four other entries come back. But it reads the link as an attribute,
  and on an entry that has no link at all the read raises: the feed of
  \<open>linkless_world\<close> is a valid entry followed by such an entry, the \<^verbatim>\<open>except\<close> clause of
  line 106 returns the empty list, the valid entry is lost and the search ends with
  "No search results found.".
\<close>

theorem entry_without_link_loses_all:
  "feedparser_parse linkless_world ''feed''
     = Inr [\<lparr>link = Some ''https://example.org/france'', title = Some ''France'',
             summary = Some ''France info''\<rparr>,
            \<lparr>link = None, title = Some ''No link'', summary = Some ''Some text''\<rparr>]
   \<and> parse_rss_results linkless_world ''feed'' = []
   \<and> parse_rss_results linkless_world ''feed'' \<noteq> [france_result]
   \<and> tavily_like_search linkless_world demo_query empty_state
       = (Inr ''No search results found.'',
          \<lparr>web_cache = Map.empty, trace = [Search demo_query]\<rparr>)
   \<and> feedparser_parse demo_world ''feed'' = Inr demo_entries
   \<and> link (demo_entries ! 2) = Some []
   \<and> parse_rss_results demo_world ''feed'' = demo_results"
  by (simp add: llm_defs demo_defs run_defs france_result_def)

end
